theory Spec2Isabelle
  imports Complex_Main "HOL-Library.Sublist"
begin

section \<open>Strings of the runtime\<close>

text \<open>
  A string is held as the bytes of its UTF-8 encoding. A character is a byte that is not
  a continuation byte (0x80 to 0xBF) with the continuation bytes that follow it;
  \<open>characters\<close> cuts a string into its characters.
\<close>

definition lower_letters :: string where
  "lower_letters = ''abcdefghijklmnopqrstuvwxyz''"

definition upper_letters :: string where
  "upper_letters = ''ABCDEFGHIJKLMNOPQRSTUVWXYZ''"

definition digits :: string where
  "digits = ''0123456789''"

definition is_continuation :: "char \<Rightarrow> bool" where
  "is_continuation c = (128 \<le> (of_char c :: nat) \<and> (of_char c :: nat) < 192)"

function characters :: "string \<Rightarrow> string list" where
  "characters [] = []"
| "characters (c # cs) =
     (c # takeWhile is_continuation cs) # characters (dropWhile is_continuation cs)"
  by pat_completeness auto
termination
  by (relation "measure length") (auto simp: length_dropWhile_le less_Suc_eq_le)

text \<open>
  The characters that \<open>trim\<close> removes: the language's white space (tab, VT, FF, space,
  U+00A0, U+FEFF and the other space separators U+1680, U+2000 to U+200A, U+202F, U+205F,
  U+3000) and its line terminators (LF, CR, U+2028, U+2029).
\<close>

definition white_space :: "string list" where
  "white_space =
     [[CHR 0x09], [CHR 0x0A], [CHR 0x0B], [CHR 0x0C], [CHR 0x0D], [CHR 0x20],
      [CHR 0xC2, CHR 0xA0],
      [CHR 0xE1, CHR 0x9A, CHR 0x80],
      [CHR 0xE2, CHR 0x80, CHR 0x80], [CHR 0xE2, CHR 0x80, CHR 0x81],
      [CHR 0xE2, CHR 0x80, CHR 0x82], [CHR 0xE2, CHR 0x80, CHR 0x83],
      [CHR 0xE2, CHR 0x80, CHR 0x84], [CHR 0xE2, CHR 0x80, CHR 0x85],
      [CHR 0xE2, CHR 0x80, CHR 0x86], [CHR 0xE2, CHR 0x80, CHR 0x87],
      [CHR 0xE2, CHR 0x80, CHR 0x88], [CHR 0xE2, CHR 0x80, CHR 0x89],
      [CHR 0xE2, CHR 0x80, CHR 0x8A],
      [CHR 0xE2, CHR 0x80, CHR 0xA8], [CHR 0xE2, CHR 0x80, CHR 0xA9],
      [CHR 0xE2, CHR 0x80, CHR 0xAF],
      [CHR 0xE2, CHR 0x81, CHR 0x9F],
      [CHR 0xE3, CHR 0x80, CHR 0x80],
      [CHR 0xEF, CHR 0xBB, CHR 0xBF]]"

definition is_space :: "string \<Rightarrow> bool" where
  "is_space u = (u \<in> set white_space)"

definition trim :: "string \<Rightarrow> string" where
  "trim s = concat (rev (dropWhile is_space (rev (dropWhile is_space (characters s)))))"

text \<open>
  \<open>toUpperCase\<close> and \<open>toLowerCase\<close> map the 26 letters of ASCII. Outside ASCII the tables
  list the characters whose mapping holds an ASCII letter: for upper case the sharp s,
  the dotless i, the long s, U+0149, U+01F0, U+1E96 to U+1E9A and the ligatures U+FB00 to
  U+FB06; for lower case the dotted capital I (U+0130) and the Kelvin sign. Every other
  character outside ASCII is left as it is: the runtime maps it to characters outside
  ASCII again, and the program only looks for ASCII letters in the result.
\<close>

definition upper_char :: "char \<Rightarrow> char" where
  "upper_char c = (case map_of (zip lower_letters upper_letters) c of Some u \<Rightarrow> u | None \<Rightarrow> c)"

definition lower_char :: "char \<Rightarrow> char" where
  "lower_char c = (case map_of (zip upper_letters lower_letters) c of Some l \<Rightarrow> l | None \<Rightarrow> c)"

definition upper_special :: "(string \<times> string) list" where
  "upper_special =
     [([CHR 0xC3, CHR 0x9F], ''SS''),
      ([CHR 0xC4, CHR 0xB1], ''I''),
      ([CHR 0xC5, CHR 0xBF], ''S''),
      ([CHR 0xC5, CHR 0x89], [CHR 0xCA, CHR 0xBC] @ ''N''),
      ([CHR 0xC7, CHR 0xB0], ''J'' @ [CHR 0xCC, CHR 0x8C]),
      ([CHR 0xE1, CHR 0xBA, CHR 0x96], ''H'' @ [CHR 0xCC, CHR 0xB1]),
      ([CHR 0xE1, CHR 0xBA, CHR 0x97], ''T'' @ [CHR 0xCC, CHR 0x88]),
      ([CHR 0xE1, CHR 0xBA, CHR 0x98], ''W'' @ [CHR 0xCC, CHR 0x8A]),
      ([CHR 0xE1, CHR 0xBA, CHR 0x99], ''Y'' @ [CHR 0xCC, CHR 0x8A]),
      ([CHR 0xE1, CHR 0xBA, CHR 0x9A], ''A'' @ [CHR 0xCA, CHR 0xBE]),
      ([CHR 0xEF, CHR 0xAC, CHR 0x80], ''FF''),
      ([CHR 0xEF, CHR 0xAC, CHR 0x81], ''FI''),
      ([CHR 0xEF, CHR 0xAC, CHR 0x82], ''FL''),
      ([CHR 0xEF, CHR 0xAC, CHR 0x83], ''FFI''),
      ([CHR 0xEF, CHR 0xAC, CHR 0x84], ''FFL''),
      ([CHR 0xEF, CHR 0xAC, CHR 0x85], ''ST''),
      ([CHR 0xEF, CHR 0xAC, CHR 0x86], ''ST'')]"

definition lower_special :: "(string \<times> string) list" where
  "lower_special =
     [([CHR 0xC4, CHR 0xB0], ''i'' @ [CHR 0xCC, CHR 0x87]),
      ([CHR 0xE2, CHR 0x84, CHR 0xAA], ''k'')]"

definition upper_character :: "string \<Rightarrow> string" where
  "upper_character u = (case map_of upper_special u of Some v \<Rightarrow> v | None \<Rightarrow> map upper_char u)"

definition lower_character :: "string \<Rightarrow> string" where
  "lower_character u = (case map_of lower_special u of Some v \<Rightarrow> v | None \<Rightarrow> map lower_char u)"

definition toUpperCase :: "string \<Rightarrow> string" where
  "toUpperCase s = concat (map upper_character (characters s))"

definition toLowerCase :: "string \<Rightarrow> string" where
  "toLowerCase s = concat (map lower_character (characters s))"

text \<open>\<open>s.includes(t)\<close>: \<open>t\<close> occurs in \<open>s\<close> as a contiguous run of characters.\<close>

fun str_includes :: "string \<Rightarrow> string \<Rightarrow> bool" where
  "str_includes [] t = (t = [])"
| "str_includes (c # cs) t = (take (length t) (c # cs) = t \<or> str_includes cs t)"

section \<open>Airport resolver\<close>

text \<open>
  \<open>COMMON_AIRPORTS\<close> is an object literal; \<open>Object.entries\<close> lists its entries in the
  order they are written, so the table is an association list in source order.
\<close>

definition COMMON_AIRPORTS :: "(string \<times> string list) list" where
  "COMMON_AIRPORTS =
    [(''new york'', [''JFK'', ''LGA'', ''EWR'']),
     (''nyc'', [''JFK'', ''LGA'', ''EWR'']),
     (''los angeles'', [''LAX'']),
     (''la'', [''LAX'']),
     (''chicago'', [''ORD'', ''MDW'']),
     (''san francisco'', [''SFO'']),
     (''sf'', [''SFO'']),
     (''miami'', [''MIA'']),
     (''boston'', [''BOS'']),
     (''seattle'', [''SEA'']),
     (''denver'', [''DEN'']),
     (''atlanta'', [''ATL'']),
     (''dallas'', [''DFW'', ''DAL'']),
     (''washington'', [''DCA'', ''IAD'', ''BWI'']),
     (''dc'', [''DCA'', ''IAD'', ''BWI'']),
     (''london'', [''LHR'', ''LGW'', ''STN'', ''LTN'']),
     (''paris'', [''CDG'', ''ORY'']),
     (''amsterdam'', [''AMS'']),
     (''frankfurt'', [''FRA'']),
     (''madrid'', [''MAD'']),
     (''rome'', [''FCO'', ''CIA'']),
     (''barcelona'', [''BCN'']),
     (''berlin'', [''BER'']),
     (''zurich'', [''ZUR'']),
     (''vienna'', [''VIE'']),
     (''tokyo'', [''NRT'', ''HND'']),
     (''beijing'', [''PEK'', ''PKX'']),
     (''shanghai'', [''PVG'', ''SHA'']),
     (''hong kong'', [''HKG'']),
     (''singapore'', [''SIN'']),
     (''dubai'', [''DXB'']),
     (''mumbai'', [''BOM'']),
     (''delhi'', [''DEL'']),
     (''bangkok'', [''BKK'']),
     (''seoul'', [''ICN'', ''GMP'']),
     (''kuala lumpur'', [''KUL'']),
     (''melbourne'', [''MEL'']),
     (''sydney'', [''SYD''])]"

text \<open>The regular expression \<open>/^[A-Z]{3}$/\<close>: exactly three capital letters.\<close>

definition is_airport_code :: "string \<Rightarrow> bool" where
  "is_airport_code s = (length s = 3 \<and> list_all (\<lambda>c. c \<in> set upper_letters) s)"

text \<open>
  The \<open>for\<close> loop over the table entries: the first entry whose city name is contained
  in the normalised input, or contains it, decides; \<open>codes[0]\<close> of an empty code list is
  \<open>undefined\<close>, which the caller treats like \<open>null\<close>.
\<close>

fun scan_airports :: "(string \<times> string list) list \<Rightarrow> string \<Rightarrow> string option" where
  "scan_airports [] normalized = None"
| "scan_airports ((city, codes) # rest) normalized =
     (if str_includes normalized city \<or> str_includes city normalized
      then (case codes of [] \<Rightarrow> None | code # _ \<Rightarrow> Some code)
      else scan_airports rest normalized)"

definition findAirportCode :: "string \<Rightarrow> string option" where
  "findAirportCode input =
     (let normalized = trim (toLowerCase input) in
      if is_airport_code (toUpperCase input) then Some (toUpperCase input)
      else scan_airports COMMON_AIRPORTS normalized)"

section \<open>Dates of the runtime\<close>

text \<open>
  The program runs on Node.js, whose \<open>Date\<close> is V8's. For a string of the shape
  \<open>YYYY-MM-DD\<close>, alone or followed by \<open>T12:00:00\<close>, V8's parser accepts a month
  from 01 to 12 and a day from 01 to 31 whatever the month, and yields an invalid date
  (time value NaN) otherwise; the time value is then computed by the language's
  \<open>MakeDay\<close>, which counts a day past the end of its month into the next month.
  A time value is a number of milliseconds; an invalid date is \<open>None\<close>.
\<close>

definition is_digit :: "char \<Rightarrow> bool" where
  "is_digit c = (c \<in> set digits)"

definition digit_val :: "char \<Rightarrow> int" where
  "digit_val c = int (length (takeWhile (\<lambda>d. d \<noteq> c) digits))"

definition decimal :: "string \<Rightarrow> int" where
  "decimal s = foldl (\<lambda>n c. 10 * n + digit_val c) 0 s"

text \<open>The regular expression \<open>/^\d{4}-\d{2}-\d{2}$/\<close>.\<close>

definition matches_date_pattern :: "string \<Rightarrow> bool" where
  "matches_date_pattern s =
     (length s = 10 \<and> list_all is_digit (take 4 s) \<and> s ! 4 = CHR ''-'' \<and>
      list_all is_digit (take 2 (drop 5 s)) \<and> s ! 7 = CHR ''-'' \<and>
      list_all is_digit (drop 8 s))"

definition year_of :: "string \<Rightarrow> int" where
  "year_of s = decimal (take 4 s)"

definition month_of :: "string \<Rightarrow> int" where
  "month_of s = decimal (take 2 (drop 5 s))"

definition day_of :: "string \<Rightarrow> int" where
  "day_of s = decimal (drop 8 s)"

definition InLeapYear :: "int \<Rightarrow> bool" where
  "InLeapYear y = (y mod 4 = 0 \<and> (y mod 100 \<noteq> 0 \<or> y mod 400 = 0))"

definition DayFromYear :: "int \<Rightarrow> int" where
  "DayFromYear y = 365 * (y - 1970) + (y - 1969) div 4 - (y - 1901) div 100 + (y - 1601) div 400"

definition month_start :: "int list" where
  "month_start = [0, 31, 59, 90, 120, 151, 181, 212, 243, 273, 304, 334]"

text \<open>\<open>MakeDay(year, month, date)\<close> with the month counted from 0.\<close>

definition MakeDay :: "int \<Rightarrow> int \<Rightarrow> int \<Rightarrow> int" where
  "MakeDay year month date =
     (let ym = year + month div 12; mn = month mod 12
      in DayFromYear ym + month_start ! nat mn + (if InLeapYear ym \<and> 2 \<le> mn then 1 else 0)
         + date - 1)"

definition msPerDay :: int where
  "msPerDay = 86400000"

definition msPerHour :: int where
  "msPerHour = 3600000"

definition date_fields_ok :: "string \<Rightarrow> bool" where
  "date_fields_ok s = (1 \<le> month_of s \<and> month_of s \<le> 12 \<and> 1 \<le> day_of s \<and> day_of s \<le> 31)"

text \<open>
  \<open>new Date(s + 'T12:00:00')\<close> for \<open>s\<close> of the shape \<open>YYYY-MM-DD\<close>: noon of that day on
  the local clock. Local time values are counted on the local clock (milliseconds since
  1970-01-01T00:00 local time), which orders them as the UTC time values are ordered.
\<close>

definition Date_local_noon :: "string \<Rightarrow> int option" where
  "Date_local_noon s =
     (if date_fields_ok s
      then Some (MakeDay (year_of s) (month_of s - 1) (day_of s) * msPerDay + 12 * msPerHour)
      else None)"

text \<open>\<open>new Date(s)\<close> for \<open>s\<close> of the shape \<open>YYYY-MM-DD\<close>: midnight UTC of that day.\<close>

definition Date_utc :: "string \<Rightarrow> int option" where
  "Date_utc s =
     (if date_fields_ok s
      then Some (MakeDay (year_of s) (month_of s - 1) (day_of s) * msPerDay)
      else None)"

text \<open>\<open>today.setHours(0, 0, 0, 0)\<close> on the local clock reading \<open>now\<close>.\<close>

definition start_of_day :: "int \<Rightarrow> int" where
  "start_of_day now = now - now mod msPerDay"

section \<open>Date validation\<close>

definition validateDate :: "int \<Rightarrow> string \<Rightarrow> string option" where
  "validateDate now dateInput =
     (if \<not> matches_date_pattern dateInput then None
      else case Date_local_noon dateInput of
        None \<Rightarrow> None
      | Some date \<Rightarrow> if date < start_of_day now then None else Some dateInput)"

text \<open>
  The calendar, to state what a valid calendar date is: the number of days of a month,
  and the strings that name a day of the calendar.
\<close>

definition days_in_month :: "int \<Rightarrow> int \<Rightarrow> int" where
  "days_in_month y m =
     (if m = 2 then (if InLeapYear y then 29 else 28)
      else if m \<in> {4, 6, 9, 11} then 30 else 31)"

definition valid_calendar_date :: "string \<Rightarrow> bool" where
  "valid_calendar_date s =
     (matches_date_pattern s \<and> 1 \<le> month_of s \<and> month_of s \<le> 12 \<and>
      1 \<le> day_of s \<and> day_of s \<le> days_in_month (year_of s) (month_of s))"

section \<open>Values of the runtime\<close>

text \<open>
  The response of the flight-search API is JSON, and the program handles it as untyped
  values: property reads, truthiness tests, \<open>||\<close> and \<open>&&\<close>. A number is the rational it
  denotes; an object is the list of its own properties, in order, with distinct keys.
\<close>

datatype jsval =
    JUndefined
  | JNull
  | JBool bool
  | JNum rat
  | JStr string
  | JArr "jsval list"
  | JObj "(string \<times> jsval) list"

fun truthy :: "jsval \<Rightarrow> bool" where
  "truthy JUndefined = False"
| "truthy JNull = False"
| "truthy (JBool b) = b"
| "truthy (JNum n) = (n \<noteq> 0)"
| "truthy (JStr s) = (s \<noteq> [])"
| "truthy (JArr xs) = True"
| "truthy (JObj kvs) = True"

definition js_or :: "jsval \<Rightarrow> jsval \<Rightarrow> jsval" where
  "js_or a b = (if truthy a then a else b)"

definition js_and :: "jsval \<Rightarrow> jsval \<Rightarrow> jsval" where
  "js_and a b = (if truthy a then b else a)"

definition nullish :: "jsval \<Rightarrow> bool" where
  "nullish v = (v = JUndefined \<or> v = JNull)"

text \<open>
  \<open>v.k\<close> for one of the property names the program reads (none of them is a property of
  a string, a number, a boolean or an array). On \<open>null\<close> and \<open>undefined\<close> the read throws
  a \<open>TypeError\<close>: the program's functions below test \<open>nullish\<close> wherever the source
  reads a property of a value that may be one of them.
\<close>

fun get_prop :: "jsval \<Rightarrow> string \<Rightarrow> jsval" where
  "get_prop (JObj kvs) k = (case map_of kvs k of Some v \<Rightarrow> v | None \<Rightarrow> JUndefined)"
| "get_prop v k = JUndefined"

fun isArray :: "jsval \<Rightarrow> bool" where
  "isArray (JArr xs) = True"
| "isArray v = False"

fun elements :: "jsval \<Rightarrow> jsval list" where
  "elements (JArr xs) = xs"
| "elements v = []"

text \<open>\<open>typeof v === 'object'\<close>.\<close>

fun is_object_type :: "jsval \<Rightarrow> bool" where
  "is_object_type JNull = True"
| "is_object_type (JArr xs) = True"
| "is_object_type (JObj kvs) = True"
| "is_object_type v = False"

text \<open>Assigning a property: an existing key keeps its place, a new key goes last.\<close>

fun obj_set :: "(string \<times> jsval) list \<Rightarrow> string \<Rightarrow> jsval \<Rightarrow> (string \<times> jsval) list" where
  "obj_set [] k v = [(k, v)]"
| "obj_set ((k', v') # kvs) k v = (if k' = k then (k, v) # kvs else (k', v') # obj_set kvs k v)"

text \<open>Decimal rendering of the integers the program prints.\<close>

fun show_nat :: "nat \<Rightarrow> string" where
  "show_nat n = (if n < 10 then [digits ! n] else show_nat (n div 10) @ [digits ! (n mod 10)])"

definition show_int :: "int \<Rightarrow> string" where
  "show_int i = (if i < 0 then ''-'' @ show_nat (nat (- i)) else show_nat (nat i))"

text \<open>The own enumerable properties that an object spread \<open>...v\<close> copies.\<close>

fun own_props :: "jsval \<Rightarrow> (string \<times> jsval) list" where
  "own_props (JObj kvs) = kvs"
| "own_props (JArr xs) = zip (map show_nat [0..<length xs]) xs"
| "own_props v = []"

definition spread :: "(string \<times> jsval) list \<Rightarrow> jsval \<Rightarrow> (string \<times> jsval) list" where
  "spread obj v = foldl (\<lambda>acc (k, x). obj_set acc k x) obj (own_props v)"

section \<open>Schemas\<close>

text \<open>
  The schemas are built with the Zod combinators \<open>z.string\<close>, \<open>z.number\<close>, \<open>z.boolean\<close>,
  \<open>z.any\<close>, \<open>z.array\<close>, \<open>z.object\<close> (which drops unknown keys unless \<open>.passthrough()\<close> is
  applied), \<open>.optional()\<close> and \<open>z.union\<close>. \<open>zparse\<close> is the library's \<open>parse\<close>: the parsed
  value, or \<open>None\<close> where the library throws a \<open>ZodError\<close>.
\<close>

datatype zschema =
    ZString
  | ZNumber
  | ZBoolean
  | ZAny
  | ZArray zschema
  | ZObject "(string \<times> zschema) list" bool
  | ZOptional zschema
  | ZUnion "zschema list"

fun zparse :: "zschema \<Rightarrow> jsval \<Rightarrow> jsval option" where
  "zparse ZString v = (case v of JStr s \<Rightarrow> Some v | _ \<Rightarrow> None)"
| "zparse ZNumber v = (case v of JNum n \<Rightarrow> Some v | _ \<Rightarrow> None)"
| "zparse ZBoolean v = (case v of JBool b \<Rightarrow> Some v | _ \<Rightarrow> None)"
| "zparse ZAny v = Some v"
| "zparse (ZOptional s) v = (if v = JUndefined then Some JUndefined else zparse s v)"
| "zparse (ZArray s) v =
     (case v of
        JArr xs \<Rightarrow>
          (let ys = map (zparse s) xs
           in if list_all (\<lambda>y. y \<noteq> None) ys then Some (JArr (map the ys)) else None)
      | _ \<Rightarrow> None)"
| "zparse (ZObject shape passthrough) v =
     (case v of
        JObj kvs \<Rightarrow>
          (let fields = map (\<lambda>(k, s). (k, zparse s (get_prop v k))) shape
           in if list_all (\<lambda>(k, y). y \<noteq> None) fields
              then Some (JObj
                (filter (\<lambda>(k, y). y \<noteq> JUndefined \<or> k \<in> fst ` set kvs)
                   (map (\<lambda>(k, y). (k, the y)) fields)
                 @ (if passthrough then filter (\<lambda>(k, y). k \<notin> fst ` set shape) kvs else [])))
              else None)
      | _ \<Rightarrow> None)"
| "zparse (ZUnion ss) v =
     (case filter (\<lambda>y. y \<noteq> None) (map (\<lambda>s. zparse s v) ss) of
        [] \<Rightarrow> None
      | y # _ \<Rightarrow> y)"

text \<open>
  The airport object (\<open>name\<close>, \<open>id\<close>, \<open>time\<close>, all optional) is written out in the source
  at each of its four uses; it is named once here.
\<close>

definition AirportSchema :: zschema where
  "AirportSchema =
     ZOptional (ZObject
       [(''name'', ZOptional ZString),
        (''id'', ZOptional ZString),
        (''time'', ZOptional ZString)] False)"

definition FlightSegmentSchema :: zschema where
  "FlightSegmentSchema =
     ZObject
       [(''departure_airport'', AirportSchema),
        (''arrival_airport'', AirportSchema),
        (''duration'', ZOptional ZNumber),
        (''airplane'', ZOptional ZString),
        (''airline'', ZOptional ZString),
        (''airline_logo'', ZOptional ZString),
        (''travel_class'', ZOptional ZString),
        (''flight_number'', ZOptional ZString),
        (''legroom'', ZOptional ZString),
        (''extensions'', ZOptional (ZArray ZString)),
        (''often_delayed_by_over'', ZOptional ZString),
        (''overnight'', ZOptional ZBoolean)] True"

definition FlightSchema :: zschema where
  "FlightSchema =
     ZObject
       [(''flights'', ZOptional (ZArray FlightSegmentSchema)),
        (''price'', ZOptional ZNumber),
        (''total_duration'', ZOptional ZNumber),
        (''type'', ZOptional ZString),
        (''airline_logo'', ZOptional ZString),
        (''carbon_emissions'', ZOptional (ZObject
           [(''this_flight'', ZOptional ZNumber),
            (''typical_for_this_route'', ZOptional ZNumber),
            (''difference_percent'', ZOptional ZNumber)] False)),
        (''departure_token'', ZOptional ZString),
        (''departure_airport'', AirportSchema),
        (''arrival_airport'', AirportSchema),
        (''duration'', ZOptional ZNumber),
        (''airplane'', ZOptional ZString),
        (''airline'', ZOptional ZString),
        (''travel_class'', ZOptional ZString),
        (''flight_number'', ZOptional ZString),
        (''legroom'', ZOptional ZString),
        (''extensions'', ZOptional (ZArray ZString)),
        (''often_delayed_by_over'', ZOptional ZString)] True"

definition FlightSearchResultSchema :: zschema where
  "FlightSearchResultSchema =
     ZObject
       [(''best_flights'', ZOptional (ZArray FlightSchema)),
        (''other_flights'', ZOptional (ZArray FlightSchema)),
        (''price_insights'', ZOptional (ZObject
           [(''lowest_price'', ZOptional ZNumber),
            (''price_level'', ZOptional ZString),
            (''typical_price_range'', ZOptional (ZArray ZNumber)),
            (''price_history'', ZOptional (ZUnion
               [ZArray (ZObject [(''date'', ZString), (''price'', ZNumber)] False),
                ZArray (ZArray ZAny),
                ZAny]))] False)),
        (''search_metadata'', ZOptional (ZObject
           [(''id'', ZOptional ZString),
            (''status'', ZOptional ZString),
            (''json_endpoint'', ZOptional ZString),
            (''created_at'', ZOptional ZString),
            (''processed_at'', ZOptional ZString),
            (''google_flights_url'', ZOptional ZString),
            (''total_time_taken'', ZOptional ZNumber)] False)),
        (''search_parameters'', ZOptional (ZObject
           [(''engine'', ZOptional ZString),
            (''departure_id'', ZOptional ZString),
            (''arrival_id'', ZOptional ZString),
            (''outbound_date'', ZOptional ZString),
            (''return_date'', ZOptional ZString),
            (''travel_class'', ZOptional (ZUnion [ZString, ZNumber])),
            (''adults'', ZOptional ZNumber)] False))] True"

section \<open>API client\<close>

text \<open>
  An exception is a value: every exception the program can meet is an \<open>Error\<close> with a
  message. A function that can throw returns \<open>js_error + 'a\<close>, the error on the left.
\<close>

datatype js_error = Error string

fun message :: "js_error \<Rightarrow> string" where
  "message (Error m) = m"

definition sq :: string where
  "sq = [CHR 0x27]"

definition dq :: string where
  "dq = [CHR 0x22]"

definition nl :: string where
  "nl = [CHR 0x0A]"

text \<open>The message of V8's \<open>TypeError\<close> for a property read on \<open>null\<close> or \<open>undefined\<close>.\<close>

definition cannot_read :: "jsval \<Rightarrow> string \<Rightarrow> string" where
  "cannot_read v k =
     ''Cannot read properties of '' @ (if v = JNull then ''null'' else ''undefined'')
       @ '' (reading '' @ sq @ k @ sq @ '')''"

record FlightSearchParams =
  departure_id :: string
  arrival_id :: string
  outbound_date :: string
  return_date :: "string option"
  travel_class :: "nat option"
  adults :: "int option"
  children :: "int option"
  infants_in_seat :: "int option"
  infants_on_lap :: "int option"
  trip_type :: "nat option"

text \<open>
  The field \<open>trip_type\<close> is the source's \<open>type\<close>. An HTTP request is the base URL and the
  list of query parameters that \<open>URLSearchParams\<close> holds when the URL is built; the
  percent-encoding of the URL is not modelled.
\<close>

record request =
  url_base :: string
  query :: "(string \<times> string) list"

record http_response =
  ok :: bool
  status :: nat
  statusText :: string
  body_text :: string
  body_json :: "string + jsval"

text \<open>
  \<open>fetch\<close> either rejects (with an error message) or responds; \<open>body_json\<close> is what
  \<open>response.json()\<close> yields: the parsed body, or on the left the message of the
  \<open>SyntaxError\<close> it throws.
\<close>

datatype fetch_outcome = Rejected string | Responded http_response

text \<open>
  What the program reads from its surroundings: the local clock, the environment variable
  \<open>SERPAPI_KEY\<close>, the network, and the text Zod renders as the message of the
  \<open>ZodError\<close> for a value that fails \<open>FlightSearchResultSchema\<close>.
\<close>

record platform =
  now :: int
  SERPAPI_KEY :: "string option"
  fetch :: "request \<Rightarrow> fetch_outcome"
  zod_message :: "jsval \<Rightarrow> string"

record service =
  apiKey :: string
  baseUrl :: string

text \<open>\<open>!key || key === 'your_serpapi_key_here'\<close>.\<close>

definition key_missing :: "string option \<Rightarrow> bool" where
  "key_missing key = (key = None \<or> key = Some [] \<or> key = Some ''your_serpapi_key_here'')"

text \<open>
  The constructor, which the module runs once when it is loaded
  (\<open>export const serpApiService = new SerpApiService()\<close>).
\<close>

definition SerpApiService_new :: "string option \<Rightarrow> js_error + service" where
  "SerpApiService_new key =
     (if key_missing key
      then Inl (Error ''SERPAPI_KEY environment variable is required and must be a valid API key'')
      else Inr \<lparr>apiKey = the key, baseUrl = ''https://serpapi.com/search.json''\<rparr>)"

text \<open>\<open>URLSearchParams.set\<close>.\<close>

fun usp_set :: "(string \<times> string) list \<Rightarrow> string \<Rightarrow> string \<Rightarrow> (string \<times> string) list" where
  "usp_set [] k v = [(k, v)]"
| "usp_set ((k', v') # kvs) k v = (if k' = k then (k, v) # kvs else (k', v') # usp_set kvs k v)"

definition set_if :: "bool \<Rightarrow> string \<Rightarrow> string \<Rightarrow> (string \<times> string) list \<Rightarrow> (string \<times> string) list" where
  "set_if c k v usp = (if c then usp_set usp k v else usp)"

text \<open>The query parameters of \<open>searchFlights\<close>, set in the order of the source.\<close>

definition build_query :: "service \<Rightarrow> FlightSearchParams \<Rightarrow> (string \<times> string) list" where
  "build_query svc params =
     (let p0 = usp_set [] ''engine'' ''google_flights'';
          p1 = usp_set p0 ''api_key'' (apiKey svc);
          p2 = usp_set p1 ''departure_id'' (departure_id params);
          p3 = usp_set p2 ''arrival_id'' (arrival_id params);
          p4 = usp_set p3 ''outbound_date'' (outbound_date params);
          p5 = (case return_date params of
                  Some r \<Rightarrow> set_if (r \<noteq> []) ''return_date'' r p4 | None \<Rightarrow> p4);
          p6 = (case travel_class params of
                  Some c \<Rightarrow> set_if (c \<noteq> 0) ''travel_class'' (show_nat c) p5 | None \<Rightarrow> p5);
          p7 = (case adults params of
                  Some n \<Rightarrow> set_if (n \<noteq> 0 \<and> 0 < n) ''adults'' (show_int n) p6 | None \<Rightarrow> p6);
          p8 = (case children params of
                  Some n \<Rightarrow> set_if (n \<noteq> 0 \<and> 0 < n) ''children'' (show_int n) p7 | None \<Rightarrow> p7);
          p9 = (case infants_in_seat params of
                  Some n \<Rightarrow> set_if (n \<noteq> 0 \<and> 0 < n) ''infants_in_seat'' (show_int n) p8 | None \<Rightarrow> p8);
          p10 = (case infants_on_lap params of
                  Some n \<Rightarrow> set_if (n \<noteq> 0 \<and> 0 < n) ''infants_on_lap'' (show_int n) p9 | None \<Rightarrow> p9)
      in (case trip_type params of
            Some t \<Rightarrow> set_if (t \<noteq> 0) ''type'' (show_nat t) p10 | None \<Rightarrow> p10))"

text \<open>
  The callback of the two \<open>filter\<close> calls (the source writes the same function twice, for
  \<open>best_flights\<close> and for \<open>other_flights\<close>); an option is kept when the callback's value
  is truthy.
\<close>

definition keep_flight :: "jsval \<Rightarrow> bool" where
  "keep_flight flight =
     (if \<not> truthy flight then False
      else
        let fl = get_prop flight ''flights'' in
        if truthy fl \<and> isArray fl \<and> 0 < length (elements fl)
        then
          (let firstSegment = elements fl ! 0
           in truthy (js_and firstSegment
                (js_or (js_or (get_prop firstSegment ''departure_airport'')
                              (get_prop firstSegment ''arrival_airport''))
                       (get_prop firstSegment ''airline''))))
        else truthy (js_or (js_or (get_prop flight ''departure_airport'')
                                  (get_prop flight ''arrival_airport''))
                           (get_prop flight ''airline'')))"

text \<open>
  \<open>if (data.k) { data.k = data.k.filter(...) }\<close>: a truthy value that is not an array has
  no \<open>filter\<close> method, and the call throws.
\<close>

definition prune_key :: "string \<Rightarrow> jsval \<Rightarrow> js_error + jsval" where
  "prune_key k validatedData =
     (let flights = get_prop validatedData k in
      if \<not> truthy flights then Inr validatedData
      else if isArray flights
      then Inr (JObj (obj_set (own_props validatedData) k (JArr (filter keep_flight (elements flights)))))
      else Inl (Error (''validatedData.'' @ k @ ''.filter is not a function'')))"

definition prune :: "jsval \<Rightarrow> js_error + jsval" where
  "prune validatedData =
     (case prune_key ''best_flights'' validatedData of
        Inl e \<Rightarrow> Inl e
      | Inr d \<Rightarrow> prune_key ''other_flights'' d)"

definition default_airport :: jsval where
  "default_airport = JObj [(''name'', JStr ''Unknown''), (''id'', JStr []), (''time'', JStr [])]"

text \<open>
  The callback of \<open>map\<close> in \<open>cleanFlights\<close>. \<open>flightInfo\<close> is the first element of a
  non-empty \<open>flights\<close> array, else the option itself; reading its properties throws when
  it is \<open>null\<close>. The object literal lists the six reconstructed fields and \<open>price\<close>, then
  spreads the raw option over them, then sets \<open>flights\<close>.
\<close>

definition clean_flight :: "jsval \<Rightarrow> js_error + jsval" where
  "clean_flight flight =
     (let fl = get_prop flight ''flights'';
          flightInfo = (if truthy fl \<and> isArray fl \<and> 0 < length (elements fl)
                        then elements fl ! 0 else flight)
      in if nullish flightInfo then Inl (Error (cannot_read flightInfo ''departure_airport''))
         else Inr (JObj (obj_set
           (spread
              [(''departure_airport'',
                  js_or (js_or (get_prop flightInfo ''departure_airport'')
                               (get_prop flight ''departure_airport'')) default_airport),
               (''arrival_airport'',
                  js_or (js_or (get_prop flightInfo ''arrival_airport'')
                               (get_prop flight ''arrival_airport'')) default_airport),
               (''duration'',
                  js_or (js_or (js_or (get_prop flightInfo ''duration'')
                                      (get_prop flight ''total_duration''))
                               (get_prop flight ''duration'')) (JNum 0)),
               (''airline'',
                  js_or (js_or (get_prop flightInfo ''airline'') (get_prop flight ''airline''))
                        (JStr ''Unknown Airline'')),
               (''flight_number'',
                  js_or (js_or (get_prop flightInfo ''flight_number'')
                               (get_prop flight ''flight_number'')) (JStr ''N/A'')),
               (''travel_class'',
                  js_or (js_or (get_prop flightInfo ''travel_class'')
                               (get_prop flight ''travel_class'')) (JStr ''economy'')),
               (''price'', js_or (get_prop flight ''price'') JUndefined)]
              flight)
           ''flights'' (js_or (get_prop flight ''flights'') JUndefined))))"

text \<open>Running the callback over the list stops at the first exception.\<close>

fun map_throwing :: "('a \<Rightarrow> js_error + 'b) \<Rightarrow> 'a list \<Rightarrow> js_error + 'b list" where
  "map_throwing f [] = Inr []"
| "map_throwing f (x # xs) =
     (case f x of
        Inl e \<Rightarrow> Inl e
      | Inr y \<Rightarrow> (case map_throwing f xs of Inl e \<Rightarrow> Inl e | Inr ys \<Rightarrow> Inr (y # ys)))"

definition cleanFlights :: "jsval \<Rightarrow> js_error + jsval list" where
  "cleanFlights flights =
     (if \<not> isArray flights then Inr []
      else map_throwing clean_flight
             (take 5 (filter (\<lambda>flight. truthy flight \<and> is_object_type flight) (elements flights))))"

text \<open>The body of the inner \<open>try\<close>: the structure returned when strict validation failed.\<close>

definition fallback :: "jsval \<Rightarrow> js_error + jsval" where
  "fallback rawData =
     (case cleanFlights (js_or (get_prop rawData ''best_flights'') (JArr [])) of
        Inl e \<Rightarrow> Inl e
      | Inr best \<Rightarrow>
         (case cleanFlights (js_or (get_prop rawData ''other_flights'') (JArr [])) of
            Inl e \<Rightarrow> Inl e
          | Inr other \<Rightarrow>
              Inr (JObj
                [(''best_flights'', JArr best),
                 (''other_flights'', JArr other),
                 (''price_insights'', js_or (get_prop rawData ''price_insights'') JUndefined),
                 (''search_metadata'', JObj
                    [(''google_flights_url'',
                        js_or (if nullish (get_prop rawData ''search_metadata'') then JUndefined
                               else get_prop (get_prop rawData ''search_metadata'') ''google_flights_url'')
                              (JStr ''https://www.google.com/travel/flights''))]),
                 (''search_parameters'', js_or (get_prop rawData ''search_parameters'') (JObj []))])))"

text \<open>
  What \<open>searchFlights\<close> does with the parsed body \<open>rawData\<close>: the log line reads
  \<open>rawData.best_flights\<close> (which throws on \<open>null\<close>), then strict validation and pruning,
  and when validation throws a \<open>ZodError\<close> and \<open>rawData\<close> is truthy, the fallback. Every
  exception that is not answered by the fallback is rethrown with the prefix
  \<open>Flight search failed: \<close>.
\<close>

definition failed :: "string \<Rightarrow> js_error" where
  "failed m = Error (''Flight search failed: '' @ m)"

definition normalize_response :: "platform \<Rightarrow> jsval \<Rightarrow> js_error + jsval" where
  "normalize_response pf rawData =
     (if nullish rawData then Inl (failed (cannot_read rawData ''best_flights''))
      else case zparse FlightSearchResultSchema rawData of
        Some validatedData \<Rightarrow>
          (case prune validatedData of Inl e \<Rightarrow> Inl (failed (message e)) | Inr d \<Rightarrow> Inr d)
      | None \<Rightarrow>
          if truthy rawData
          then (case fallback rawData of
                  Inr d \<Rightarrow> Inr d
                | Inl parseError \<Rightarrow> Inl (failed (zod_message pf rawData)))
          else Inl (failed (zod_message pf rawData)))"

text \<open>\<open>searchFlights\<close> of the service: the result, and the requests it sent.\<close>

definition SerpApiService_searchFlights ::
  "platform \<Rightarrow> service \<Rightarrow> FlightSearchParams \<Rightarrow> (js_error + jsval) \<times> request list" where
  "SerpApiService_searchFlights pf svc params =
     (let req = \<lparr>url_base = baseUrl svc, query = build_query svc params\<rparr> in
      ((case fetch pf req of
          Rejected m \<Rightarrow> Inl (failed m)
        | Responded response \<Rightarrow>
            if \<not> ok response
            then Inl (failed (''SerpApi request failed: '' @ show_nat (status response) @ '' ''
                       @ statusText response @ ''. Response: '' @ body_text response))
            else (case body_json response of
                    Inl m \<Rightarrow> Inl (failed m)
                  | Inr rawData \<Rightarrow> normalize_response pf rawData)),
       [req]))"

section \<open>The flight-search tool\<close>

datatype travel_class_name = economy | premium_economy | business | first

fun convertTravelClass :: "travel_class_name \<Rightarrow> nat" where
  "convertTravelClass economy = 1"
| "convertTravelClass premium_economy = 2"
| "convertTravelClass business = 3"
| "convertTravelClass first = 4"

fun class_text :: "travel_class_name \<Rightarrow> string" where
  "class_text economy = ''economy''"
| "class_text premium_economy = ''premium_economy''"
| "class_text business = ''business''"
| "class_text first = ''first''"

text \<open>
  The arguments of the tool, as its parameter schema types them. The passenger count is
  a number; the model takes it to be an integer.
\<close>

record tool_args =
  origin :: string
  destination :: string
  departureDate :: string
  returnDate :: "string option"
  passengers :: "int option"
  travelClass :: "travel_class_name option"

record search_parameters =
  sp_origin :: string
  sp_destination :: string
  sp_departureDate :: string
  sp_returnDate :: "string option"
  sp_passengers :: int
  sp_travelClass :: string
  sp_tripType :: string

record success_payload =
  searchParameters :: search_parameters
  priceInsights :: jsval
  bestFlights :: jsval
  otherFlights :: jsval
  totalResults :: nat
  searchUrl :: jsval

text \<open>
  What the tool returns: the structured error \<open>{error, details?, suggestions?}\<close> or the
  success payload.
\<close>

datatype tool_result =
    ErrorResult string "string option" "string option"
  | SuccessResult success_payload

text \<open>\<open>returnDate\<close> is truthy: given and not the empty string.\<close>

definition given :: "string option \<Rightarrow> bool" where
  "given r = (r \<noteq> None \<and> r \<noteq> Some [])"

text \<open>\<open>passengers || 1\<close>.\<close>

definition passengers_or_1 :: "int option \<Rightarrow> int" where
  "passengers_or_1 p = (case p of None \<Rightarrow> 1 | Some n \<Rightarrow> if n = 0 then 1 else n)"

definition class_or_economy :: "travel_class_name option \<Rightarrow> string" where
  "class_or_economy c = (case c of None \<Rightarrow> ''economy'' | Some t \<Rightarrow> class_text t)"

definition airport_error :: "string \<Rightarrow> string" where
  "airport_error city =
     ''Could not find airport for '' @ dq @ city @ dq
       @ ''. Please provide a valid city name or 3-letter airport code.''"

definition date_error :: "string \<Rightarrow> string \<Rightarrow> string" where
  "date_error which date =
     ''Invalid '' @ which @ '' date '' @ dq @ date @ dq
       @ ''. Please provide a future date in YYYY-MM-DD format.''"

definition date_suggestion :: string where
  "date_suggestion = ''The date must be in the format YYYY-MM-DD and cannot be in the past.''"

definition ordering_error :: "string \<Rightarrow> string \<Rightarrow> string" where
  "ordering_error ret dep =
     ''Return date '' @ dq @ ret @ dq @ '' must be after departure date '' @ dq @ dep @ dq @ ''.''"

definition ordering_suggestion :: string where
  "ordering_suggestion = ''Make sure your return date is later than your departure date.''"

text \<open>
  The template of the setup guidance. The wrench sign and the arrow are the bytes of their
  UTF-8 encodings.
\<close>

definition setup_instructions :: "tool_args \<Rightarrow> string \<Rightarrow> string \<Rightarrow> string" where
  "setup_instructions args originCode destinationCode =
     nl @ [CHR 0xF0, CHR 0x9F, CHR 0x94, CHR 0xA7] @ '' **Setup Instructions:**'' @ nl
     @ ''1. Create a .env.local file in your project root'' @ nl
     @ ''2. Add: SERPAPI_KEY=your_actual_api_key_here'' @ nl
     @ ''3. Get your free API key from https://serpapi.com/dashboard'' @ nl
     @ ''4. Free tier includes 100 searches per month'' @ nl
     @ nl
     @ ''**Example search parameters detected:**'' @ nl
     @ ''- Route: '' @ origin args @ '' ('' @ originCode @ '') ''
     @ [CHR 0xE2, CHR 0x86, CHR 0x92] @ '' '' @ destination args @ '' ('' @ destinationCode @ '')'' @ nl
     @ ''- Date: '' @ departureDate args
     @ (if given (returnDate args) then '' - '' @ the (returnDate args) else []) @ nl
     @ ''- Passengers: '' @ show_int (passengers_or_1 (passengers args)) @ '' ''
     @ class_or_economy (travelClass args) @ nl
     @ ''- Trip Type: '' @ (if given (returnDate args) then ''round-trip'' else ''one-way'') @ nl
     @ nl
     @ ''Once configured, I'' @ sq @ ''ll be able to search real flights with pricing!''"

definition not_configured :: "tool_args \<Rightarrow> string \<Rightarrow> string \<Rightarrow> tool_result" where
  "not_configured args originCode destinationCode =
     ErrorResult ''Flight search is not configured. SerpApi API key is missing.''
       (Some ''Please set SERPAPI_KEY in your .env.local file'')
       (Some (setup_instructions args originCode destinationCode))"

text \<open>
  \<open>returnDateTime <= departureDateTime\<close> on the two \<open>Date\<close> objects made from the
  validated strings; a comparison with an invalid date is false.
\<close>

definition not_after :: "string \<Rightarrow> string \<Rightarrow> bool" where
  "not_after ret dep =
     (case (Date_utc ret, Date_utc dep) of
        (Some r, Some d) \<Rightarrow> r \<le> d
      | _ \<Rightarrow> False)"

text \<open>The object \<open>searchParams\<close> that the tool hands to the service.\<close>

definition build_params ::
  "tool_args \<Rightarrow> string \<Rightarrow> string \<Rightarrow> string \<Rightarrow> string option \<Rightarrow> FlightSearchParams" where
  "build_params args originCode destinationCode validatedDepartureDate validatedReturnDate =
     \<lparr>departure_id = originCode,
      arrival_id = destinationCode,
      outbound_date = validatedDepartureDate,
      return_date = (if given validatedReturnDate then validatedReturnDate else None),
      travel_class = (case travelClass args of None \<Rightarrow> None | Some t \<Rightarrow> Some (convertTravelClass t)),
      adults = (case passengers args of
                  None \<Rightarrow> None
                | Some n \<Rightarrow> if n \<noteq> 0 \<and> 0 < n then Some n else None),
      children = None,
      infants_in_seat = None,
      infants_on_lap = None,
      trip_type = Some (if given validatedReturnDate then 1 else 2)\<rparr>"

text \<open>
  \<open>v?.slice(0, n)\<close> and \<open>v?.length || 0\<close>, for the two lists of the service's result.
\<close>

fun slice_opt :: "string \<Rightarrow> jsval \<Rightarrow> nat \<Rightarrow> js_error + jsval" where
  "slice_opt k JUndefined n = Inr JUndefined"
| "slice_opt k JNull n = Inr JUndefined"
| "slice_opt k (JArr xs) n = Inr (JArr (take n xs))"
| "slice_opt k (JStr s) n = Inr (JStr (take n s))"
| "slice_opt k v n = Inl (Error (''flightResults.'' @ k @ ''?.slice is not a function''))"

fun length_or_0 :: "jsval \<Rightarrow> nat" where
  "length_or_0 (JArr xs) = length xs"
| "length_or_0 (JStr s) = length s"
| "length_or_0 v = 0"

text \<open>
  The object literal of the success payload, its properties evaluated in order; reading
  \<open>google_flights_url\<close> throws when the result has no \<open>search_metadata\<close>.
\<close>

definition format_response ::
  "tool_args \<Rightarrow> string \<Rightarrow> string \<Rightarrow> string \<Rightarrow> string option \<Rightarrow> jsval
     \<Rightarrow> js_error + success_payload" where
  "format_response args originCode destinationCode validatedDepartureDate validatedReturnDate
       flightResults =
     (case slice_opt ''best_flights'' (get_prop flightResults ''best_flights'') 3 of
        Inl e \<Rightarrow> Inl e
      | Inr best \<Rightarrow>
         (case slice_opt ''other_flights'' (get_prop flightResults ''other_flights'') 5 of
            Inl e \<Rightarrow> Inl e
          | Inr other \<Rightarrow>
              if nullish (get_prop flightResults ''search_metadata'')
              then Inl (Error (cannot_read (get_prop flightResults ''search_metadata'')
                                 ''google_flights_url''))
              else Inr
                \<lparr>searchParameters =
                   \<lparr>sp_origin = origin args @ '' ('' @ originCode @ '')'',
                    sp_destination = destination args @ '' ('' @ destinationCode @ '')'',
                    sp_departureDate = validatedDepartureDate,
                    sp_returnDate = validatedReturnDate,
                    sp_passengers = passengers_or_1 (passengers args),
                    sp_travelClass = class_or_economy (travelClass args),
                    sp_tripType = (if given validatedReturnDate then ''round-trip'' else ''one-way'')\<rparr>,
                 priceInsights = get_prop flightResults ''price_insights'',
                 bestFlights = best,
                 otherFlights = other,
                 totalResults = length_or_0 (get_prop flightResults ''best_flights'')
                                + length_or_0 (get_prop flightResults ''other_flights''),
                 searchUrl = get_prop (get_prop flightResults ''search_metadata'') ''google_flights_url''\<rparr>))"

text \<open>The \<open>catch\<close> block of the tool: an exception becomes a structured error.\<close>

definition on_exception :: "js_error \<Rightarrow> tool_result" where
  "on_exception e =
     (if str_includes (message e) ''SERPAPI_KEY''
      then ErrorResult ''Flight search is not configured properly. Please contact support.''
             (Some ''SerpApi API key is missing or invalid'')
             (Some ''The administrator needs to set up the SERPAPI_KEY environment variable.'')
      else if str_includes (message e) ''400''
      then ErrorResult ''Invalid flight search parameters. Please check your search criteria.''
             (Some (message e))
             (Some ''Try searching with different cities, valid dates (YYYY-MM-DD format), or check airport codes.'')
      else ErrorResult ''Sorry, I encountered an error while searching for flights. Please try again or check your search parameters.''
             (Some (message e)) None)"

text \<open>
  The rest of the \<open>try\<close> block once every check has passed (the search parameters, the
  call of the service, the success payload), with the \<open>catch\<close> block: the value returned
  and the HTTP requests sent.
\<close>

definition run_search ::
  "platform \<Rightarrow> service \<Rightarrow> tool_args \<Rightarrow> string \<Rightarrow> string \<Rightarrow> string \<Rightarrow> string option
     \<Rightarrow> tool_result \<times> request list" where
  "run_search pf svc args originCode destinationCode validatedDepartureDate validatedReturnDate =
     (let (flightResults, sent) =
            SerpApiService_searchFlights pf svc
              (build_params args originCode destinationCode validatedDepartureDate validatedReturnDate)
      in (case flightResults of
            Inl e \<Rightarrow> (on_exception e, sent)
          | Inr r \<Rightarrow>
              (case format_response args originCode destinationCode validatedDepartureDate
                      validatedReturnDate r of
                 Inl e \<Rightarrow> (on_exception e, sent)
               | Inr payload \<Rightarrow> (SuccessResult payload, sent))))"

text \<open>
  \<open>execute\<close> of the tool, with the service object the module imported: the value it
  returns and the HTTP requests sent on the way. The checks come in the order of the
  source: origin, destination, departure date, return date, date order, API key.
\<close>

definition execute :: "platform \<Rightarrow> service \<Rightarrow> tool_args \<Rightarrow> tool_result \<times> request list" where
  "execute pf svc args =
     (case findAirportCode (origin args) of
        None \<Rightarrow>
          (ErrorResult (airport_error (origin args)) None
             (Some (''Try cities like '' @ dq @ ''New York'' @ dq @ '', '' @ dq @ ''Los Angeles'' @ dq
                    @ '', or airport codes like '' @ dq @ ''JFK'' @ dq @ '', '' @ dq @ ''LAX'' @ dq @ ''.'')),
           [])
      | Some originCode \<Rightarrow>
     (case findAirportCode (destination args) of
        None \<Rightarrow>
          (ErrorResult (airport_error (destination args)) None
             (Some (''Try cities like '' @ dq @ ''London'' @ dq @ '', '' @ dq @ ''Tokyo'' @ dq
                    @ '', or airport codes like '' @ dq @ ''LHR'' @ dq @ '', '' @ dq @ ''NRT'' @ dq @ ''.'')),
           [])
      | Some destinationCode \<Rightarrow>
     (case validateDate (now pf) (departureDate args) of
        None \<Rightarrow>
          (ErrorResult (date_error ''departure'' (departureDate args)) None (Some date_suggestion), [])
      | Some validatedDepartureDate \<Rightarrow>
     (if given (returnDate args) \<and> validateDate (now pf) (the (returnDate args)) = None
      then (ErrorResult (date_error ''return'' (the (returnDate args))) None (Some date_suggestion), [])
      else
        let validatedReturnDate =
              (if given (returnDate args) then validateDate (now pf) (the (returnDate args)) else None)
        in
        if given validatedReturnDate \<and> not_after (the validatedReturnDate) validatedDepartureDate
        then (ErrorResult (ordering_error (the (returnDate args)) (departureDate args)) None
                (Some ordering_suggestion), [])
        else if key_missing (SERPAPI_KEY pf)
        then (not_configured args originCode destinationCode, [])
        else run_search pf svc args originCode destinationCode validatedDepartureDate
               validatedReturnDate))))"

text \<open>
  A call of the tool in a process. The module of the tool imports the module of the
  service, whose top level builds the service object
  (\<open>export const serpApiService = new SerpApiService()\<close>): loading comes first, and an
  exception thrown there ends it, so that \<open>execute\<close> is never run. The environment is read
  when the module is loaded and again when \<open>execute\<close> runs; it is the same both times.
\<close>

definition call_tool :: "platform \<Rightarrow> tool_args \<Rightarrow> js_error + tool_result \<times> request list" where
  "call_tool pf args =
     (case SerpApiService_new (SERPAPI_KEY pf) of
        Inl e \<Rightarrow> Inl e
      | Inr serpApiService \<Rightarrow> Inr (execute pf serpApiService args))"

section \<open>Notions used to state the properties\<close>

text \<open>
  An identifiable field of a segment or of an option: a truthy departure airport, arrival
  airport or airline. The first nested segment of an option is the first element of a
  non-empty \<open>flights\<close> array.
\<close>

definition identifiable :: "jsval \<Rightarrow> bool" where
  "identifiable v =
     (truthy (get_prop v ''departure_airport'') \<or> truthy (get_prop v ''arrival_airport'') \<or>
      truthy (get_prop v ''airline''))"

definition first_segment :: "jsval \<Rightarrow> jsval option" where
  "first_segment flight =
     (case get_prop flight ''flights'' of JArr (seg # rest) \<Rightarrow> Some seg | _ \<Rightarrow> None)"

definition has_identifiable_field :: "jsval \<Rightarrow> bool" where
  "has_identifiable_field flight =
     ((case first_segment flight of Some seg \<Rightarrow> identifiable seg | None \<Rightarrow> False) \<or>
      identifiable flight)"

text \<open>
  The order of two date strings by year, then month, then day, and the day number that
  \<open>MakeDay\<close> gives a date string; the length of a year and the days of a year before a
  month.
\<close>

definition date_le :: "string \<Rightarrow> string \<Rightarrow> bool" where
  "date_le a b =
     (year_of a < year_of b \<or>
      (year_of a = year_of b \<and>
        (month_of a < month_of b \<or> (month_of a = month_of b \<and> day_of a \<le> day_of b))))"

definition day_number :: "string \<Rightarrow> int" where
  "day_number s = MakeDay (year_of s) (month_of s - 1) (day_of s)"

definition days_in_year :: "int \<Rightarrow> int" where
  "days_in_year y = (if InLeapYear y then 366 else 365)"

definition month_offset :: "int \<Rightarrow> int \<Rightarrow> int" where
  "month_offset y m = month_start ! nat (m - 1) + (if InLeapYear y \<and> 3 \<le> m then 1 else 0)"

text \<open>
  A validated response for the examples: three best options (nested airline; price only;
  flat airline) and two other options (an empty first segment beside a flat airline; a
  flat departure airport), and what pruning leaves of it.
\<close>

definition example_validated :: jsval where
  "example_validated =
     JObj [(''best_flights'', JArr
              [JObj [(''flights'', JArr [JObj [(''airline'', JStr ''Delta'')]]), (''price'', JNum 100)],
               JObj [(''price'', JNum 5)],
               JObj [(''airline'', JStr ''United'')]]),
           (''other_flights'', JArr
              [JObj [(''flights'', JArr [JObj [(''duration'', JNum 60)]]), (''airline'', JStr ''KLM'')],
               JObj [(''departure_airport'', JObj [(''id'', JStr ''JFK'')])]])]"

definition example_pruned :: jsval where
  "example_pruned =
     JObj [(''best_flights'', JArr
              [JObj [(''flights'', JArr [JObj [(''airline'', JStr ''Delta'')]]), (''price'', JNum 100)],
               JObj [(''airline'', JStr ''United'')]]),
           (''other_flights'', JArr
              [JObj [(''departure_airport'', JObj [(''id'', JStr ''JFK'')])]])]"

text \<open>
  All the checks of the tool before the API key is looked at: both airports resolve, the
  departure date is accepted, and a return date, when one is given, is accepted and falls
  after the departure date.
\<close>

definition checks_pass :: "int \<Rightarrow> tool_args \<Rightarrow> bool" where
  "checks_pass t args =
     (findAirportCode (origin args) \<noteq> None \<and> findAirportCode (destination args) \<noteq> None \<and>
      validateDate t (departureDate args) \<noteq> None \<and>
      (given (returnDate args) \<longrightarrow>
         validateDate t (the (returnDate args)) \<noteq> None \<and>
         \<not> not_after (the (returnDate args)) (departureDate args)))"

text \<open>
  An example run: the local clock reads 3 November 2025, 10:00; the API answers a search
  with five best options, one of them without any identifiable field, and one other option.
\<close>

definition example_now :: int where
  "example_now = 20395 * msPerDay + 10 * msPerHour"

definition example_raw :: jsval where
  "example_raw =
     JObj [(''best_flights'', JArr
              [JObj [(''flights'', JArr [JObj [(''airline'', JStr ''Delta'')]]), (''price'', JNum 100)],
               JObj [(''price'', JNum 5)],
               JObj [(''airline'', JStr ''United'')],
               JObj [(''airline'', JStr ''ANA'')],
               JObj [(''airline'', JStr ''JAL'')]]),
           (''other_flights'', JArr
              [JObj [(''departure_airport'', JObj [(''id'', JStr ''JFK'')])]]),
           (''search_metadata'', JObj [(''google_flights_url'', JStr ''https://www.google.com/travel/flights?q=1'')])]"

definition example_platform :: platform where
  "example_platform =
     \<lparr>now = example_now,
      SERPAPI_KEY = Some ''secret-key'',
      fetch = (\<lambda>req. Responded
                 \<lparr>ok = True, status = 200, statusText = ''OK'', body_text = [],
                  body_json = Inr example_raw\<rparr>),
      zod_message = (\<lambda>v. ''invalid response'')\<rparr>"

definition example_service :: service where
  "example_service = \<lparr>apiKey = ''secret-key'', baseUrl = ''https://serpapi.com/search.json''\<rparr>"

definition example_args :: tool_args where
  "example_args =
     \<lparr>origin = ''New York'', destination = ''Tokyo'', departureDate = ''2025-12-25'',
      returnDate = None, passengers = None, travelClass = None\<rparr>"

text \<open>A list of the response is an array or is absent.\<close>

definition list_or_absent :: "jsval \<Rightarrow> bool" where
  "list_or_absent v = (v = JUndefined \<or> isArray v)"


text \<open>
  A response that fails strict validation (\<open>flight_number\<close> is \<open>null\<close>), whose one option has
  an airline and a flight number in its first segment and flat fields of the same names.
\<close>

definition example_degraded :: jsval where
  "example_degraded =
     JObj [(''best_flights'', JArr
              [JObj [(''flights'', JArr [JObj [(''airline'', JStr ''Delta''),
                                              (''flight_number'', JStr ''DL 1'')]]),
                     (''airline'', JStr ''United''),
                     (''flight_number'', JNull)]])]"




section \<open>Properties of the airport resolver\<close>

lemma white_space_units:
  "list_all (\<lambda>u. u \<noteq> [] \<and> \<not> is_continuation (hd u) \<and> list_all is_continuation (tl u) \<and>
                 lower_character u = u \<and> upper_character u = u \<and> hd u \<notin> set upper_letters)
     white_space"
  by code_simp

lemma space_unit:
  assumes "is_space u"
  shows "u \<noteq> []" "\<not> is_continuation (hd u)" "list_all is_continuation (tl u)"
    "lower_character u = u" "upper_character u = u" "hd u \<notin> set upper_letters"
  using white_space_units assms by (simp_all add: is_space_def list_all_iff)

lemma characters_unit:
  assumes "u \<noteq> []" and "\<not> is_continuation (hd u)" and "list_all is_continuation (tl u)"
    and "rest = [] \<or> \<not> is_continuation (hd rest)"
  shows "characters (u @ rest) = u # characters rest"
proof -
  from assms(1) obtain c cs where u: "u = c # cs" by (cases u) auto
  have cs: "\<forall>x\<in>set cs. is_continuation x" using assms(3) u by (simp add: list_all_iff)
  have r: "takeWhile is_continuation rest = []" "dropWhile is_continuation rest = rest"
    using assms(4) by (cases rest; simp)+
  have "takeWhile is_continuation (cs @ rest) = cs"
    using cs r by (simp add: takeWhile_append2)
  moreover have "dropWhile is_continuation (cs @ rest) = rest"
    using cs r by (simp add: dropWhile_append2)
  ultimately show ?thesis unfolding u by simp
qed

lemma concat_spaces_head:
  assumes "\<forall>u\<in>set us. is_space u"
  shows "concat us = [] \<or> \<not> is_continuation (hd (concat us))"
proof (cases us)
  case Nil
  then show ?thesis by simp
next
  case (Cons u us')
  with assms have "is_space u" by simp
  from space_unit(1,2)[OF this] Cons show ?thesis by simp
qed

lemma characters_spaces:
  assumes "\<forall>u\<in>set us. is_space u"
  shows "characters (concat us) = us"
  using assms
proof (induction us)
  case Nil
  show ?case by simp
next
  case (Cons u us)
  then have u: "is_space u" and rest: "\<forall>u\<in>set us. is_space u" by simp_all
  have "characters (u @ concat us) = u # characters (concat us)"
    using space_unit(1,2,3)[OF u] concat_spaces_head[OF rest] by (rule characters_unit)
  then show ?case using Cons.IH[OF rest] by simp
qed

lemma lower_spaces:
  assumes "\<forall>u\<in>set us. is_space u"
  shows "toLowerCase (concat us) = concat us"
proof -
  have "map lower_character us = us" using assms space_unit(4) by (simp add: map_idI)
  then show ?thesis by (simp add: toLowerCase_def characters_spaces[OF assms])
qed

lemma upper_spaces:
  assumes "\<forall>u\<in>set us. is_space u"
  shows "toUpperCase (concat us) = concat us"
proof -
  have "map upper_character us = us" using assms space_unit(5) by (simp add: map_idI)
  then show ?thesis by (simp add: toUpperCase_def characters_spaces[OF assms])
qed

lemma trim_spaces:
  assumes "\<forall>u\<in>set us. is_space u"
  shows "trim (concat us) = []"
proof -
  have "dropWhile is_space us = []" using assms by (induction us) simp_all
  then have "dropWhile is_space (characters (concat us)) = []"
    by (simp only: characters_spaces[OF assms])
  then have "rev (dropWhile is_space (rev (dropWhile is_space (characters (concat us))))) = []"
    by (simp only: rev.simps dropWhile.simps)
  then show ?thesis by (simp only: trim_def concat.simps)
qed

lemma not_code_spaces:
  assumes "\<forall>u\<in>set us. is_space u"
  shows "\<not> is_airport_code (concat us)"
proof (cases us)
  case Nil
  then show ?thesis by (simp add: is_airport_code_def)
next
  case (Cons u us')
  with assms have "is_space u" by simp
  from space_unit(1,6)[OF this] obtain c cs where "u = c # cs" "c \<notin> set upper_letters"
    by (cases u) auto
  with Cons show ?thesis by (simp add: is_airport_code_def)
qed

lemma scan_empty: "scan_airports COMMON_AIRPORTS [] = Some ''JFK''"
  by code_simp

text \<open>
  C9. For the empty string and for every input made of white space only (any run of the
  characters that \<open>trim\<close> removes), the resolver returns \<open>JFK\<close>, the first code of the first
  table entry, and not the "not found" signal: the trimmed input is empty, and the empty
  string is contained in every city name.
\<close>

theorem whitespace_input_resolves_to_JFK:
  assumes "\<forall>u\<in>set us. u \<in> set white_space"
  shows "findAirportCode (concat us) = Some ''JFK''"
proof -
  have sp: "\<forall>u\<in>set us. is_space u" using assms by (simp add: is_space_def)
  have "trim (toLowerCase (concat us)) = []"
    by (simp only: lower_spaces[OF sp] trim_spaces[OF sp])
  moreover have "\<not> is_airport_code (toUpperCase (concat us))"
    by (simp only: upper_spaces[OF sp] not_code_spaces[OF sp] not_False_eq_True)
  ultimately show ?thesis using scan_empty by (simp add: findAirportCode_def)
qed

theorem whitespace_input_resolves_to_JFK_witness:
  "findAirportCode [] = Some ''JFK'' \<and>
   findAirportCode [CHR '' '', CHR 0x09, CHR '' ''] = Some ''JFK'' \<and>
   findAirportCode [CHR 0xC2, CHR 0xA0] = Some ''JFK'' \<and>
   findAirportCode [CHR 0xE2, CHR 0x80, CHR 0xA8, CHR 0x20, CHR 0xEF, CHR 0xBB, CHR 0xBF] = Some ''JFK'' \<and>
   hd COMMON_AIRPORTS = (''new york'', [''JFK'', ''LGA'', ''EWR''])"
  using whitespace_input_resolves_to_JFK[of "[]"]
    whitespace_input_resolves_to_JFK[of "[[CHR '' ''], [CHR 0x09], [CHR '' '']]"]
    whitespace_input_resolves_to_JFK[of "[[CHR 0xC2, CHR 0xA0]]"]
    whitespace_input_resolves_to_JFK[of
      "[[CHR 0xE2, CHR 0x80, CHR 0xA8], [CHR 0x20], [CHR 0xEF, CHR 0xBB, CHR 0xBF]]"]
  by (simp add: white_space_def COMMON_AIRPORTS_def)

lemma table_keys_resolved:
  "list_all (\<lambda>(city, codes). city \<in> {''nyc'', ''atlanta'', ''dallas'', ''kuala lumpur''} \<or>
      (codes \<noteq> [] \<and> findAirportCode city = Some (hd codes))) COMMON_AIRPORTS"
  by code_simp

lemma shadowed_keys:
  "findAirportCode ''nyc'' = Some ''NYC'' \<and> findAirportCode ''atlanta'' = Some ''LAX'' \<and>
   findAirportCode ''dallas'' = Some ''LAX'' \<and> findAirportCode ''kuala lumpur'' = Some ''LAX''"
  by code_simp

text \<open>
  C4, as the code has it. Given a city name of the table verbatim, the resolver returns
  the first code listed for it, for every key but four: \<open>nyc\<close> is three letters, so it is
  taken for an airport code and returned in capitals before the table is read; and
  \<open>atlanta\<close>, \<open>dallas\<close> and \<open>kuala lumpur\<close> contain the earlier key \<open>la\<close>, so the scan
  stops there and returns \<open>LAX\<close>.
\<close>

theorem table_key_resolves_to_first_code:
  assumes "(city, codes) \<in> set COMMON_AIRPORTS"
  shows "(city \<notin> {''nyc'', ''atlanta'', ''dallas'', ''kuala lumpur''} \<longrightarrow>
            codes \<noteq> [] \<and> findAirportCode city = Some (hd codes)) \<and>
         (city = ''nyc'' \<longrightarrow> findAirportCode city = Some ''NYC'') \<and>
         (city \<in> {''atlanta'', ''dallas'', ''kuala lumpur''} \<longrightarrow> findAirportCode city = Some ''LAX'')"
proof -
  have "city \<in> {''nyc'', ''atlanta'', ''dallas'', ''kuala lumpur''} \<or>
        (codes \<noteq> [] \<and> findAirportCode city = Some (hd codes))"
    using table_keys_resolved assms unfolding list_all_iff by blast
  then show ?thesis using shadowed_keys by auto
qed

theorem table_key_resolves_to_first_code_witness:
  "(''tokyo'', [''NRT'', ''HND'']) \<in> set COMMON_AIRPORTS \<and> findAirportCode ''tokyo'' = Some ''NRT''"
  using table_key_resolves_to_first_code[of "''tokyo''" "[''NRT'', ''HND'']"]
  by (simp add: COMMON_AIRPORTS_def)

text \<open>
  The claim as the specification states it fails at the key \<open>dallas\<close>, whose first listed
  code is \<open>DFW\<close>.
\<close>

theorem dallas_resolves_to_LAX:
  "(''dallas'', [''DFW'', ''DAL'']) \<in> set COMMON_AIRPORTS \<and>
   findAirportCode ''dallas'' = Some ''LAX'' \<and> ''LAX'' \<noteq> hd [''DFW'', ''DAL'']"
  by code_simp

section \<open>Properties of pruning\<close>

lemma truthy_js_or: "truthy (js_or a b) \<longleftrightarrow> truthy a \<or> truthy b"
  by (simp add: js_or_def)

lemma truthy_js_and: "truthy (js_and a b) \<longleftrightarrow> truthy a \<and> truthy b"
  by (simp add: js_and_def)

lemma keep_flight_iff:
  "keep_flight flight \<longleftrightarrow>
     truthy flight \<and>
     (case first_segment flight of
        Some seg \<Rightarrow> truthy seg \<and> identifiable seg
      | None \<Rightarrow> identifiable flight)"
proof (cases "get_prop flight ''flights''")
  case (JArr xs)
  then show ?thesis
    by (cases xs)
       (simp_all add: keep_flight_def first_segment_def identifiable_def truthy_js_or truthy_js_and Let_def)
qed (simp_all add: keep_flight_def first_segment_def identifiable_def truthy_js_or Let_def)

lemma keep_flight_identifiable: "keep_flight flight \<Longrightarrow> has_identifiable_field flight"
  by (auto simp: keep_flight_iff has_identifiable_field_def split: option.splits)

lemma map_of_obj_set: "map_of (obj_set kvs k v) k' = (if k' = k then Some v else map_of kvs k')"
  by (induction kvs) auto

lemma get_prop_obj_set:
  "get_prop (JObj (obj_set kvs k v)) k' = (if k' = k then v else get_prop (JObj kvs) k')"
  by (simp add: map_of_obj_set)

lemma obj_set_same: "map_of kvs k = Some v \<Longrightarrow> obj_set kvs k v = kvs"
  by (induction kvs) (auto split: if_splits)

lemma falsy_elements: "\<not> truthy v \<Longrightarrow> elements v = []"
  by (cases v) simp_all

lemma truthy_prop_obj: "truthy (get_prop d k) \<Longrightarrow> \<exists>kvs. d = JObj kvs"
  by (cases d) simp_all

lemma isArray_elements: "isArray v \<Longrightarrow> v = JArr (elements v)"
  by (cases v) simp_all

lemma prune_key_cases:
  assumes "prune_key k d = Inr d'"
  shows "(\<not> truthy (get_prop d k) \<and> d' = d) \<or>
         (\<exists>kvs xs. d = JObj kvs \<and> get_prop d k = JArr xs \<and>
                   d' = JObj (obj_set kvs k (JArr (filter keep_flight xs))))"
proof (cases "truthy (get_prop d k)")
  case False
  then show ?thesis using assms by (simp add: prune_key_def Let_def)
next
  case True
  then obtain kvs where d: "d = JObj kvs" using truthy_prop_obj by blast
  from True assms have arr: "isArray (get_prop d k)"
    by (simp add: prune_key_def Let_def split: if_splits)
  then obtain xs where xs: "get_prop d k = JArr xs" using isArray_elements by blast
  from assms True arr have "d' = JObj (obj_set (own_props d) k (JArr (filter keep_flight (elements (get_prop d k)))))"
    by (simp add: prune_key_def Let_def)
  then show ?thesis using d xs by simp
qed

lemma prune_key_result:
  assumes "prune_key k d = Inr d'"
  shows "elements (get_prop d' k) = filter keep_flight (elements (get_prop d k)) \<and>
         (k' \<noteq> k \<longrightarrow> get_prop d' k' = get_prop d k')"
  using prune_key_cases[OF assms]
proof (elim disjE exE conjE)
  assume "\<not> truthy (get_prop d k)" "d' = d"
  then show ?thesis by (simp add: falsy_elements)
next
  fix kvs xs
  assume d: "d = JObj kvs" and xs: "get_prop d k = JArr xs"
    and d': "d' = JObj (obj_set kvs k (JArr (filter keep_flight xs)))"
  have "get_prop d' k = JArr (filter keep_flight xs)"
    unfolding d' by (simp only: get_prop_obj_set refl if_True)
  moreover have "k' \<noteq> k \<longrightarrow> get_prop d' k' = get_prop d k'"
    unfolding d' d by (simp only: get_prop_obj_set) simp
  ultimately show ?thesis using xs by simp
qed

lemma prune_result:
  assumes "prune d = Inr d'"
  shows "elements (get_prop d' ''best_flights'') = filter keep_flight (elements (get_prop d ''best_flights''))"
    and "elements (get_prop d' ''other_flights'') = filter keep_flight (elements (get_prop d ''other_flights''))"
proof -
  from assms obtain d1 where 1: "prune_key ''best_flights'' d = Inr d1"
    and 2: "prune_key ''other_flights'' d1 = Inr d'"
    by (auto simp: prune_def split: sum.splits)
  have ne: "''best_flights'' \<noteq> ''other_flights''" "''other_flights'' \<noteq> ''best_flights''" by simp_all
  show "elements (get_prop d' ''best_flights'') = filter keep_flight (elements (get_prop d ''best_flights''))"
    using prune_key_result[OF 1, of "''other_flights''"] prune_key_result[OF 2, of "''best_flights''"] ne
    by simp
  show "elements (get_prop d' ''other_flights'') = filter keep_flight (elements (get_prop d ''other_flights''))"
    using prune_key_result[OF 1, of "''other_flights''"] prune_key_result[OF 2, of "''best_flights''"] ne
    by simp
qed

lemma prune_key_fixed_falsy: "\<not> truthy (get_prop d k) \<Longrightarrow> prune_key k d = Inr d"
  by (simp add: prune_key_def Let_def)

lemma prune_key_fixed:
  assumes "get_prop d k = JArr xs" and "filter keep_flight xs = xs"
  shows "prune_key k d = Inr d"
proof -
  have "truthy (get_prop d k)" using assms(1) by simp
  then obtain kvs where d: "d = JObj kvs" using truthy_prop_obj by blast
  have "map_of kvs k = Some (JArr xs)"
    using assms(1) unfolding d by (simp split: option.splits)
  then have "obj_set kvs k (JArr xs) = kvs" by (rule obj_set_same)
  then show ?thesis using assms d by (simp add: prune_key_def Let_def del: get_prop.simps)
qed

lemma prune_key_after:
  assumes "prune_key k d = Inr d'"
  shows "\<not> truthy (get_prop d' k) \<or> (\<exists>ys. get_prop d' k = JArr ys \<and> filter keep_flight ys = ys)"
  using prune_key_cases[OF assms]
proof (elim disjE exE conjE)
  assume "\<not> truthy (get_prop d k)" "d' = d"
  then show ?thesis by simp
next
  fix kvs xs
  assume d': "d' = JObj (obj_set kvs k (JArr (filter keep_flight xs)))"
  have "get_prop d' k = JArr (filter keep_flight xs)"
    unfolding d' by (simp only: get_prop_obj_set refl if_True)
  then show ?thesis by simp
qed

lemma prune_key_idem:
  assumes "prune_key k d = Inr d'"
  shows "prune_key k d' = Inr d'"
  using prune_key_after[OF assms] prune_key_fixed_falsy prune_key_fixed by blast

lemma prune_idem:
  assumes "prune d = Inr d'"
  shows "prune d' = Inr d'"
proof -
  from assms obtain d1 where 1: "prune_key ''best_flights'' d = Inr d1"
    and 2: "prune_key ''other_flights'' d1 = Inr d'"
    by (auto simp: prune_def split: sum.splits)
  have "get_prop d' ''best_flights'' = get_prop d1 ''best_flights''"
    using prune_key_result[OF 2, of "''best_flights''"] by simp
  then have "prune_key ''best_flights'' d' = Inr d'"
    using prune_key_after[OF 1] prune_key_fixed_falsy prune_key_fixed by metis
  moreover have "prune_key ''other_flights'' d' = Inr d'"
    using prune_key_idem[OF 2] .
  ultimately show ?thesis by (simp add: prune_def)
qed

lemma example_prune: "prune example_validated = Inr example_pruned"
  by code_simp

text \<open>
  C2. After the pruning step, every option kept in the best list and in the other list has
  an identifiable field (a departure airport, an arrival airport or an airline) in its
  first nested segment or in its flat fields; an option with none is discarded; each list
  is the filter of its own list alone, so the lists are pruned independently and the
  options that remain keep their order.
\<close>

theorem pruning_keeps_identifiable_options:
  assumes "prune validatedData = Inr pruned" and "k \<in> {''best_flights'', ''other_flights''}"
  shows "elements (get_prop pruned k) = filter keep_flight (elements (get_prop validatedData k)) \<and>
         (\<forall>flight \<in> set (elements (get_prop pruned k)). has_identifiable_field flight) \<and>
         (\<forall>flight \<in> set (elements (get_prop validatedData k)).
            \<not> has_identifiable_field flight \<longrightarrow> flight \<notin> set (elements (get_prop pruned k))) \<and>
         subseq (elements (get_prop pruned k)) (elements (get_prop validatedData k))"
proof -
  have eq: "elements (get_prop pruned k) = filter keep_flight (elements (get_prop validatedData k))"
    using prune_result[OF assms(1)] assms(2) by auto
  show ?thesis
    unfolding eq using keep_flight_identifiable by auto
qed


theorem pruning_keeps_identifiable_options_witness:
  "prune example_validated = Inr example_pruned \<and>
   elements (get_prop example_pruned ''best_flights'') =
     filter keep_flight (elements (get_prop example_validated ''best_flights'')) \<and>
   subseq (elements (get_prop example_pruned ''other_flights''))
     (elements (get_prop example_validated ''other_flights'')) \<and>
   length (elements (get_prop example_validated ''best_flights'')) = 3 \<and>
   length (elements (get_prop example_pruned ''best_flights'')) = 2 \<and>
   length (elements (get_prop example_validated ''other_flights'')) = 2 \<and>
   length (elements (get_prop example_pruned ''other_flights'')) = 1"
proof -
  note best = pruning_keeps_identifiable_options[OF example_prune, of "''best_flights''"]
  note other = pruning_keeps_identifiable_options[OF example_prune, of "''other_flights''"]
  have 1: "elements (get_prop example_pruned ''best_flights'') =
     filter keep_flight (elements (get_prop example_validated ''best_flights''))"
    using best by blast
  have 2: "subseq (elements (get_prop example_pruned ''other_flights''))
     (elements (get_prop example_validated ''other_flights''))"
    using other by blast
  have 3: "length (elements (get_prop example_validated ''best_flights'')) = 3 \<and>
   length (elements (get_prop example_pruned ''best_flights'')) = 2 \<and>
   length (elements (get_prop example_validated ''other_flights'')) = 2 \<and>
   length (elements (get_prop example_pruned ''other_flights'')) = 1"
    by (simp add: example_validated_def example_pruned_def)
  show ?thesis using example_prune 1 2 3 by blast
qed

text \<open>
  C8. Pruning is idempotent: filtering a pruned list again yields the same list, and
  pruning a pruned response again yields the same response.
\<close>

theorem pruning_idempotent:
  "filter keep_flight (filter keep_flight flights) = filter keep_flight flights \<and>
   (prune validatedData = Inr pruned \<longrightarrow> prune pruned = Inr pruned)"
  using prune_idem by simp

theorem pruning_idempotent_witness:
  "prune example_validated = Inr example_pruned \<and> prune example_pruned = Inr example_pruned"
  using pruning_idempotent[of "[]" example_validated example_pruned] example_prune by simp

section \<open>The calendar\<close>

lemma div_succ:
  fixes a n :: int
  assumes "0 < n"
  shows "(a + 1) div n = a div n + (if n dvd (a + 1) then 1 else 0)"
proof (cases "n dvd (a + 1)")
  case True
  then obtain k where k: "a + 1 = n * k" by (auto simp: dvd_def)
  then have a: "a = (n - 1) + n * (k - 1)" by (simp add: algebra_simps)
  have "a div n = (k - 1) + (n - 1) div n"
    by (subst a) (use assms in \<open>simp only: div_mult_self2\<close>)
  then have "a div n = k - 1" using assms by (simp add: div_pos_pos_trivial)
  moreover have "(a + 1) div n = k" using k assms by simp
  ultimately show ?thesis using True by simp
next
  case False
  have r: "0 \<le> a mod n" "a mod n < n" using assms by simp_all
  have "a mod n + 1 \<noteq> n"
  proof
    assume "a mod n + 1 = n"
    then have "(a + 1) mod n = 0"
      by (metis mod_add_left_eq mod_self)
    then show False using False by (simp add: mod_eq_0_iff_dvd)
  qed
  then have lt: "a mod n + 1 < n" using r by simp
  have "a + 1 = (a mod n + 1) + n * (a div n)" by simp
  then have "(a + 1) div n = ((a mod n + 1) + n * (a div n)) div n" by simp
  also have "\<dots> = a div n + (a mod n + 1) div n" using assms by (simp only: div_mult_self2)
  also have "(a mod n + 1) div n = 0" using r lt by (simp add: div_pos_pos_trivial)
  finally show ?thesis using False by simp
qed

lemma dvd_shift: "(n::int) dvd c \<Longrightarrow> n dvd (y - c) \<longleftrightarrow> n dvd y"
  by (simp add: dvd_diff_left_iff dvd_diff_right_iff)

lemma DayFromYear_step: "DayFromYear (y + 1) = DayFromYear y + days_in_year y"
proof -
  have s4: "y + 1 - 1969 = (y - 1969) + 1" and s4': "y - 1969 + 1 = y - 1968" by simp_all
  have s100: "y + 1 - 1901 = (y - 1901) + 1" and s100': "y - 1901 + 1 = y - 1900" by simp_all
  have s400: "y + 1 - 1601 = (y - 1601) + 1" and s400': "y - 1601 + 1 = y - 1600" by simp_all
  have e4: "(y + 1 - 1969) div 4 = (y - 1969) div 4 + (if 4 dvd y then 1 else 0)"
    unfolding s4 using div_succ[of 4 "y - 1969"] dvd_shift[of 4 1968 y] unfolding s4' by simp
  have e100: "(y + 1 - 1901) div 100 = (y - 1901) div 100 + (if 100 dvd y then 1 else 0)"
    unfolding s100 using div_succ[of 100 "y - 1901"] dvd_shift[of 100 1900 y] unfolding s100' by simp
  have e400: "(y + 1 - 1601) div 400 = (y - 1601) div 400 + (if 400 dvd y then 1 else 0)"
    unfolding s400 using div_succ[of 400 "y - 1601"] dvd_shift[of 400 1600 y] unfolding s400' by simp
  have i1: "400 dvd y \<Longrightarrow> 100 dvd y" by (rule dvd_trans[of 100 400]) simp_all
  have i2: "100 dvd y \<Longrightarrow> 4 dvd y" by (rule dvd_trans[of 4 100]) simp_all
  define a where "a = (y - 1969) div 4"
  define b where "b = (y - 1901) div 100"
  define c where "c = (y - 1601) div 400"
  have L: "InLeapYear y \<longleftrightarrow> (4 dvd y \<and> (\<not> 100 dvd y \<or> 400 dvd y))"
    by (simp only: InLeapYear_def mod_eq_0_iff_dvd)
  have D1: "DayFromYear (y + 1) = 365 * (y + 1 - 1970) + (a + (if 4 dvd y then 1 else 0))
      - (b + (if 100 dvd y then 1 else 0)) + (c + (if 400 dvd y then 1 else 0))"
    by (simp only: DayFromYear_def e4 e100 e400 a_def b_def c_def)
  have D0: "DayFromYear y = 365 * (y - 1970) + a - b + c"
    by (simp only: DayFromYear_def a_def b_def c_def)
  show ?thesis
  proof (cases "4 dvd y")
    case False
    then have "\<not> 100 dvd y" "\<not> 400 dvd y" using i1 i2 by blast+
    with False show ?thesis unfolding D1 D0 L days_in_year_def by simp
  next
    case t4: True
    show ?thesis
    proof (cases "100 dvd y")
      case False
      then have "\<not> 400 dvd y" using i1 by blast
      with False t4 show ?thesis unfolding D1 D0 L days_in_year_def by simp
    next
      case t100: True
      show ?thesis using t4 t100 unfolding D1 D0 L days_in_year_def by (cases "400 dvd y") simp_all
    qed
  qed
qed

lemma DayFromYear_mono: "y1 \<le> y2 \<Longrightarrow> DayFromYear y1 \<le> DayFromYear y2"
proof (induction y2 rule: int_ge_induct)
  case base
  show ?case by simp
next
  case (step i)
  then show ?case using DayFromYear_step[of i] by (simp add: days_in_year_def split: if_splits)
qed

lemma DayFromYear_next: 
  assumes "y1 < y2"
  shows "DayFromYear y1 + days_in_year y1 \<le> DayFromYear y2"
proof -
  have "DayFromYear (y1 + 1) \<le> DayFromYear y2" using assms by (intro DayFromYear_mono) simp
  then show ?thesis by (simp add: DayFromYear_step)
qed

lemma month_cases:
  assumes "1 \<le> m" "m \<le> (12::int)"
  shows "m \<in> {1, 2, 3, 4, 5, 6, 7, 8, 9, 10, 11, 12}"
  using assms by simp arith

lemma month_offset_step:
  assumes "1 \<le> m" "m \<le> 11"
  shows "month_offset y (m + 1) = month_offset y m + days_in_month y m"
proof -
  have "m \<in> {1, 2, 3, 4, 5, 6, 7, 8, 9, 10, 11}" using assms by simp arith
  then show ?thesis
    by (auto simp: month_offset_def month_start_def days_in_month_def)
qed

lemma days_in_month_pos: "28 \<le> days_in_month y m"
  by (simp add: days_in_month_def)

lemma month_offset_mono:
  assumes "1 \<le> m1" "m1 \<le> m2" "m2 \<le> 12"
  shows "month_offset y m1 \<le> month_offset y m2"
  using assms(2,1,3)
proof (induction m2 rule: int_ge_induct)
  case base
  show ?case by simp
next
  case (step i)
  then have "month_offset y (i + 1) = month_offset y i + days_in_month y i"
    by (intro month_offset_step) simp_all
  with step days_in_month_pos[of y i] show ?case by simp
qed

lemma month_offset_next:
  assumes "1 \<le> m1" "m1 < m2" "m2 \<le> 12"
  shows "month_offset y m1 + days_in_month y m1 \<le> month_offset y m2"
proof -
  have "month_offset y (m1 + 1) \<le> month_offset y m2"
    using assms by (intro month_offset_mono) simp_all
  moreover have "month_offset y (m1 + 1) = month_offset y m1 + days_in_month y m1"
    using assms by (intro month_offset_step) simp_all
  ultimately show ?thesis by simp
qed

lemma month_offset_end:
  assumes "1 \<le> m" "m \<le> 12"
  shows "month_offset y m + days_in_month y m \<le> days_in_year y"
proof (cases "m = 12")
  case True
  then show ?thesis
    by (simp add: month_offset_def month_start_def days_in_month_def days_in_year_def)
next
  case False
  then have "month_offset y m + days_in_month y m \<le> month_offset y 12"
    using assms by (intro month_offset_next) simp_all
  moreover have "month_offset y 12 + days_in_month y 12 \<le> days_in_year y"
    by (simp add: month_offset_def month_start_def days_in_month_def days_in_year_def)
  ultimately show ?thesis using days_in_month_pos[of y 12] by simp
qed

lemma month_offset_nonneg: 
  assumes "1 \<le> m" "m \<le> 12" shows "0 \<le> month_offset y m"
proof -
  have "month_offset y 1 \<le> month_offset y m" using assms by (intro month_offset_mono) simp_all
  then show ?thesis by (simp add: month_offset_def month_start_def)
qed

lemma MakeDay_calendar:
  assumes "1 \<le> m" "m \<le> 12"
  shows "MakeDay y (m - 1) d = DayFromYear y + month_offset y m + d - 1"
proof -
  have "(m - 1) div 12 = 0" "(m - 1) mod 12 = m - 1"
    using assms by (simp_all add: div_pos_pos_trivial mod_pos_pos_trivial)
  moreover have "(2 \<le> m - 1) = (3 \<le> m)" by auto
  ultimately show ?thesis by (simp add: MakeDay_def month_offset_def Let_def)
qed

lemma day_number_calendar:
  assumes "valid_calendar_date s"
  shows "day_number s = DayFromYear (year_of s) + month_offset (year_of s) (month_of s) + day_of s - 1"
  using assms by (simp add: day_number_def valid_calendar_date_def MakeDay_calendar)

lemma day_number_less:
  assumes a: "valid_calendar_date a" and b: "valid_calendar_date b"
    and lt: "year_of a < year_of b \<or>
      (year_of a = year_of b \<and>
        (month_of a < month_of b \<or> (month_of a = month_of b \<and> day_of a < day_of b)))"
  shows "day_number a < day_number b"
proof -
  let ?ya = "year_of a" and ?ma = "month_of a" and ?da = "day_of a"
  let ?yb = "year_of b" and ?mb = "month_of b" and ?db = "day_of b"
  have va: "1 \<le> ?ma" "?ma \<le> 12" "1 \<le> ?da" "?da \<le> days_in_month ?ya ?ma"
    using a by (simp_all add: valid_calendar_date_def)
  have vb: "1 \<le> ?mb" "?mb \<le> 12" "1 \<le> ?db" "?db \<le> days_in_month ?yb ?mb"
    using b by (simp_all add: valid_calendar_date_def)
  note na = day_number_calendar[OF a] and nb = day_number_calendar[OF b]
  from lt consider (year) "?ya < ?yb" | (month) "?ya = ?yb" "?ma < ?mb"
    | (day) "?ya = ?yb" "?ma = ?mb" "?da < ?db" by blast
  then show ?thesis
  proof cases
    case year
    have "day_number a < DayFromYear ?ya + days_in_year ?ya"
      using month_offset_end[OF va(1,2), of ?ya] va(4) na by simp
    also have "\<dots> \<le> DayFromYear ?yb" using year by (rule DayFromYear_next)
    also have "\<dots> \<le> day_number b"
      using month_offset_nonneg[OF vb(1,2), of ?yb] vb(3) nb by simp
    finally show ?thesis .
  next
    case month
    have "month_offset ?ya ?ma + days_in_month ?ya ?ma \<le> month_offset ?ya ?mb"
      using va(1) month(2) vb(2) by (rule month_offset_next)
    then show ?thesis using na nb month(1) va(4) vb(3) by simp
  next
    case day
    then show ?thesis using na nb by simp
  qed
qed

lemma fields_ok_calendar: "valid_calendar_date s \<Longrightarrow> date_fields_ok s"
  by (auto simp: valid_calendar_date_def date_fields_ok_def days_in_month_def split: if_splits)

lemma not_after_calendar:
  assumes a: "valid_calendar_date a" and b: "valid_calendar_date b"
  shows "not_after a b \<longleftrightarrow> date_le a b"
proof -
  have na: "not_after a b \<longleftrightarrow> day_number a \<le> day_number b"
    using fields_ok_calendar[OF a] fields_ok_calendar[OF b]
    by (simp add: not_after_def Date_utc_def day_number_def msPerDay_def)
  show ?thesis
  proof (cases "date_le a b")
    case True
    then have "(year_of a = year_of b \<and> month_of a = month_of b \<and> day_of a = day_of b) \<or>
      (year_of a < year_of b \<or>
      (year_of a = year_of b \<and>
        (month_of a < month_of b \<or> (month_of a = month_of b \<and> day_of a < day_of b))))"
      unfolding date_le_def by auto
    then have "day_number a \<le> day_number b"
    proof
      assume "year_of a = year_of b \<and> month_of a = month_of b \<and> day_of a = day_of b"
      then show ?thesis by (simp add: day_number_def)
    next
      assume "year_of a < year_of b \<or>
      (year_of a = year_of b \<and>
        (month_of a < month_of b \<or> (month_of a = month_of b \<and> day_of a < day_of b)))"
      then show ?thesis using day_number_less[OF a b] by simp
    qed
    with True na show ?thesis by simp
  next
    case False
    then have "year_of b < year_of a \<or>
      (year_of b = year_of a \<and>
        (month_of b < month_of a \<or> (month_of b = month_of a \<and> day_of b < day_of a)))"
      unfolding date_le_def by auto
    then have "day_number b < day_number a" by (rule day_number_less[OF b a])
    with False na show ?thesis by simp
  qed
qed

section \<open>Properties of the tool\<close>

lemma validateDate_Some: "validateDate t s = Some v \<Longrightarrow> v = s \<and> matches_date_pattern s"
  by (auto simp: validateDate_def split: if_splits option.splits)

lemma pattern_nonempty: "matches_date_pattern s \<Longrightarrow> s \<noteq> []"
  by (auto simp: matches_date_pattern_def)

lemma str_includes_Nil: "str_includes s []"
  by (cases s) simp_all

lemma str_includes_append: "str_includes (ps @ t @ ss) t"
proof (induction ps)
  case Nil
  show ?case
  proof (cases t)
    case Nil
    then show ?thesis by (simp add: str_includes_Nil)
  next
    case (Cons c cs)
    then show ?thesis by simp
  qed
next
  case (Cons p ps)
  then show ?case by simp
qed

lemma setup_instructions_text:
  "str_includes (setup_instructions args originCode destinationCode) ''Setup Instructions''"
proof -
  have "setup_instructions args originCode destinationCode =
        (nl @ [CHR 0xF0, CHR 0x9F, CHR 0x94, CHR 0xA7] @ '' **'') @ ''Setup Instructions'' @
        (drop 26 (setup_instructions args originCode destinationCode))"
    by (simp add: setup_instructions_def nl_def)
  then show ?thesis using str_includes_append by metis
qed

lemma run_search_requests:
  "snd (run_search pf svc args oc dc dep ret) =
     [\<lparr>url_base = baseUrl svc, query = build_query svc (build_params args oc dc dep ret)\<rparr>]"
  by (simp add: run_search_def SerpApiService_searchFlights_def Let_def split: sum.splits prod.splits)

lemma given_simps: "given None = False" "given (Some s) = (s \<noteq> [])"
  by (simp_all add: given_def)

lemma execute_checks_pass:
  assumes "checks_pass (now pf) args"
  shows "execute pf svc args =
         (if key_missing (SERPAPI_KEY pf)
          then (not_configured args (the (findAirportCode (origin args)))
                  (the (findAirportCode (destination args))), [])
          else run_search pf svc args (the (findAirportCode (origin args)))
                 (the (findAirportCode (destination args))) (departureDate args)
                 (if given (returnDate args) then returnDate args else None))"
proof -
  from assms obtain oc dc dep where oc: "findAirportCode (origin args) = Some oc"
    and dc: "findAirportCode (destination args) = Some dc"
    and dep: "validateDate (now pf) (departureDate args) = Some dep"
    by (auto simp: checks_pass_def)
  have depeq: "dep = departureDate args" using dep validateDate_Some by blast
  show ?thesis
  proof (cases "given (returnDate args)")
    case False
    with oc dc dep depeq show ?thesis by (simp add: execute_def Let_def given_simps)
  next
    case True
    then obtain rs where rd: "returnDate args = Some rs" and ne: "rs \<noteq> []"
      by (auto simp: given_def)
    with assms True obtain r where ret: "validateDate (now pf) rs = Some r"
      and na: "\<not> not_after rs (departureDate args)"
      by (auto simp: checks_pass_def)
    have reteq: "r = rs" using ret validateDate_Some by blast
    show ?thesis
      unfolding execute_def oc dc dep depeq rd
      using ret reteq na ne by (simp add: given_simps Let_def)
  qed
qed

lemma execute_checks_fail:
  assumes "\<not> checks_pass (now pf) args"
  shows "\<exists>e s. execute pf svc args = (ErrorResult e None (Some s), [])"
proof (cases "findAirportCode (origin args)")
  case None
  then show ?thesis by (simp add: execute_def)
next
  case oc: (Some originCode)
  show ?thesis
  proof (cases "findAirportCode (destination args)")
    case None
    with oc show ?thesis by (simp add: execute_def)
  next
    case dc: (Some destinationCode)
    show ?thesis
    proof (cases "validateDate (now pf) (departureDate args)")
      case None
      with oc dc show ?thesis by (simp add: execute_def)
    next
      case dep: (Some validatedDepartureDate)
      then have depeq: "validatedDepartureDate = departureDate args"
        using validateDate_Some by blast
      from assms oc dc dep have g: "given (returnDate args)"
        by (auto simp: checks_pass_def)
      then obtain rs where rd: "returnDate args = Some rs" and ne: "rs \<noteq> []"
        by (auto simp: given_def)
      from assms oc dc dep g rd have bad: "validateDate (now pf) rs = None \<or>
                  not_after rs (departureDate args)"
        by (auto simp: checks_pass_def)
      show ?thesis
      proof (cases "validateDate (now pf) rs")
        case None
        with oc dc dep rd ne show ?thesis by (simp add: execute_def given_simps)
      next
        case ret: (Some r)
        then have reteq: "r = rs" using validateDate_Some by blast
        from bad ret have "not_after rs (departureDate args)" by simp
        then show ?thesis
          unfolding execute_def oc dc dep depeq rd
          using ret reteq ne by (simp add: given_simps Let_def)
      qed
    qed
  qed
qed

lemma execute_bad_order:
  assumes oc: "findAirportCode (origin args) = Some oc"
    and dc: "findAirportCode (destination args) = Some dc"
    and dep: "validateDate (now pf) (departureDate args) = Some d"
    and rd: "returnDate args = Some rs"
    and ret: "validateDate (now pf) rs = Some r"
    and na: "not_after rs (departureDate args)"
  shows "execute pf svc args =
           (ErrorResult (ordering_error rs (departureDate args)) None (Some ordering_suggestion), [])"
proof -
  have depeq: "d = departureDate args" using dep validateDate_Some by blast
  have reteq: "r = rs" and ne: "rs \<noteq> []"
    using ret validateDate_Some pattern_nonempty by blast+
  show ?thesis
    unfolding execute_def oc dc dep depeq rd
    using ret reteq ne na by (simp add: given_simps Let_def)
qed

lemma service_construction_throws_without_key:
  "key_missing key \<Longrightarrow>
     SerpApiService_new key =
       Inl (Error ''SERPAPI_KEY environment variable is required and must be a valid API key'')"
  by (simp add: SerpApiService_new_def)


text \<open>
  C6. For two valid calendar dates that both pass validation, with the airports resolved:
  when the return date is not later than the departure date, the tool returns the ordering
  error and sends no request; when it is later, the tool goes on to the API key check and
  the search, and the ordering error is not what it returns.
\<close>

theorem return_not_after_departure_is_rejected:
  assumes "findAirportCode (origin args) = Some originCode"
    and "findAirportCode (destination args) = Some destinationCode"
    and "returnDate args = Some ret"
    and "valid_calendar_date (departureDate args)"
    and "valid_calendar_date ret"
    and "validateDate (now pf) (departureDate args) = Some (departureDate args)"
    and "validateDate (now pf) ret = Some ret"
  shows "(date_le ret (departureDate args) \<longrightarrow>
            execute pf svc args =
              (ErrorResult (ordering_error ret (departureDate args)) None (Some ordering_suggestion), [])) \<and>
         (\<not> date_le ret (departureDate args) \<longrightarrow>
            execute pf svc args =
              (if key_missing (SERPAPI_KEY pf)
               then (not_configured args originCode destinationCode, [])
               else run_search pf svc args originCode destinationCode (departureDate args) (Some ret)) \<and>
            fst (execute pf svc args) \<noteq>
              ErrorResult (ordering_error ret (departureDate args)) None (Some ordering_suggestion))"
proof -
  have na: "not_after ret (departureDate args) \<longleftrightarrow> date_le ret (departureDate args)"
    using assms(5,4) by (rule not_after_calendar)
  have ne: "ret \<noteq> []" using assms(7) validateDate_Some pattern_nonempty by blast
  show ?thesis
  proof (intro conjI impI)
    assume "date_le ret (departureDate args)"
    then show "execute pf svc args =
              (ErrorResult (ordering_error ret (departureDate args)) None (Some ordering_suggestion), [])"
      using execute_bad_order[OF assms(1,2,6,3,7)] na by simp
  next
    assume later: "\<not> date_le ret (departureDate args)"
    have cp: "checks_pass (now pf) args"
      using assms later na ne by (simp add: checks_pass_def given_simps)
    show e: "execute pf svc args =
              (if key_missing (SERPAPI_KEY pf)
               then (not_configured args originCode destinationCode, [])
               else run_search pf svc args originCode destinationCode (departureDate args) (Some ret))"
      using execute_checks_pass[OF cp, of svc] assms(1,2,3) ne by (simp add: given_simps)
    show "fst (execute pf svc args) \<noteq>
              ErrorResult (ordering_error ret (departureDate args)) None (Some ordering_suggestion)"
    proof (cases "key_missing (SERPAPI_KEY pf)")
      case True
      then show ?thesis unfolding e by (simp add: not_configured_def)
    next
      case False
      have "\<And>x. on_exception x \<noteq>
              ErrorResult (ordering_error ret (departureDate args)) None (Some ordering_suggestion)"
        by (simp add: on_exception_def ordering_suggestion_def)
      then show ?thesis
        unfolding e using False
        by (auto simp: run_search_def Let_def split: prod.splits sum.splits)
    qed
  qed
qed

theorem return_not_after_departure_is_rejected_witness:
  "date_le ''2025-12-25'' ''2025-12-25'' \<and>
   execute example_platform example_service (example_args\<lparr>returnDate := Some ''2025-12-25''\<rparr>) =
     (ErrorResult (ordering_error ''2025-12-25'' ''2025-12-25'') None (Some ordering_suggestion), []) \<and>
   \<not> date_le ''2025-12-31'' ''2025-12-25'' \<and>
   execute example_platform example_service (example_args\<lparr>returnDate := Some ''2025-12-31''\<rparr>) =
     run_search example_platform example_service (example_args\<lparr>returnDate := Some ''2025-12-31''\<rparr>)
       ''JFK'' ''NRT'' ''2025-12-25'' (Some ''2025-12-31'')"
proof -
  let ?same = "example_args\<lparr>returnDate := Some ''2025-12-25''\<rparr>"
  let ?later = "example_args\<lparr>returnDate := Some ''2025-12-31''\<rparr>"
  have o: "findAirportCode (origin ?same) = Some ''JFK''" "findAirportCode (origin ?later) = Some ''JFK''"
    by code_simp+
  have d: "findAirportCode (destination ?same) = Some ''NRT''"
          "findAirportCode (destination ?later) = Some ''NRT''"
    by code_simp+
  have r: "returnDate ?same = Some ''2025-12-25''" "returnDate ?later = Some ''2025-12-31''"
    by (simp_all add: example_args_def)
  have c: "valid_calendar_date (departureDate ?same)" "valid_calendar_date (departureDate ?later)"
          "valid_calendar_date ''2025-12-25''" "valid_calendar_date ''2025-12-31''"
    by code_simp+
  have v: "validateDate (now example_platform) (departureDate ?same) = Some (departureDate ?same)"
          "validateDate (now example_platform) (departureDate ?later) = Some (departureDate ?later)"
          "validateDate (now example_platform) ''2025-12-25'' = Some ''2025-12-25''"
          "validateDate (now example_platform) ''2025-12-31'' = Some ''2025-12-31''"
    by code_simp+
  have dd: "departureDate ?same = ''2025-12-25''" "departureDate ?later = ''2025-12-25''"
    by (simp_all add: example_args_def)
  have le: "date_le ''2025-12-25'' ''2025-12-25''" "\<not> date_le ''2025-12-31'' ''2025-12-25''"
    by code_simp+
  have k: "\<not> key_missing (SERPAPI_KEY example_platform)" by code_simp
  note same = return_not_after_departure_is_rejected[OF o(1) d(1) r(1) c(1) c(3) v(1) v(3), of example_service]
  note later = return_not_after_departure_is_rejected[OF o(2) d(2) r(2) c(2) c(4) v(2) v(4), of example_service]
  from same le(1) have 1: "execute example_platform example_service ?same =
     (ErrorResult (ordering_error ''2025-12-25'' ''2025-12-25'') None (Some ordering_suggestion), [])"
    unfolding dd by blast
  from later le(2) k have 2: "execute example_platform example_service ?later =
     run_search example_platform example_service ?later ''JFK'' ''NRT'' ''2025-12-25'' (Some ''2025-12-31'')"
    unfolding dd by simp
  from le 1 2 show ?thesis by blast
qed

text \<open>
  What \<open>execute\<close> itself does when the API key is absent, empty or the placeholder as it
  runs: it sends no request and returns a structured error, which is the "not configured"
  result with the setup instructions when every earlier check passes.
\<close>

lemma execute_without_key:
  assumes "key_missing (SERPAPI_KEY pf)"
  shows "snd (execute pf svc args) = [] \<and>
         (\<exists>e d s. fst (execute pf svc args) = ErrorResult e d (Some s)) \<and>
         (checks_pass (now pf) args \<longrightarrow>
            fst (execute pf svc args) =
              not_configured args (the (findAirportCode (origin args)))
                (the (findAirportCode (destination args))) \<and>
            (\<exists>e d s. fst (execute pf svc args) = ErrorResult e d (Some s) \<and>
               str_includes e ''not configured'' \<and> str_includes s ''Setup Instructions''))"
proof (cases "checks_pass (now pf) args")
  case True
  have e: "execute pf svc args =
        (not_configured args (the (findAirportCode (origin args)))
                (the (findAirportCode (destination args))), [])"
    using execute_checks_pass[OF True, of svc] assms by simp
  have "str_includes ''Flight search is not configured. SerpApi API key is missing.'' ''not configured''"
    by code_simp
  then show ?thesis
    unfolding e using setup_instructions_text by (simp add: not_configured_def)
next
  case False
  then show ?thesis using execute_checks_fail[OF False, of svc] by auto
qed

lemma execute_without_key_example:
  "key_missing (SERPAPI_KEY (example_platform\<lparr>SERPAPI_KEY := Some ''your_serpapi_key_here''\<rparr>)) \<and>
   checks_pass example_now example_args \<and>
   execute (example_platform\<lparr>SERPAPI_KEY := Some ''your_serpapi_key_here''\<rparr>) example_service example_args =
     (not_configured example_args ''JFK'' ''NRT'', [])"
proof -
  let ?pf = "example_platform\<lparr>SERPAPI_KEY := Some ''your_serpapi_key_here''\<rparr>"
  have k: "key_missing (SERPAPI_KEY ?pf)" by code_simp
  have c: "checks_pass example_now example_args" by code_simp
  have n: "now ?pf = example_now" by (simp add: example_platform_def)
  have a: "the (findAirportCode (origin example_args)) = ''JFK''"
          "the (findAirportCode (destination example_args)) = ''NRT''" by code_simp+
  from execute_without_key[OF k, of example_service example_args]
  have "snd (execute ?pf example_service example_args) = []"
    and "fst (execute ?pf example_service example_args) = not_configured example_args ''JFK'' ''NRT''"
    using c n a by simp_all
  then have "execute ?pf example_service example_args = (not_configured example_args ''JFK'' ''NRT'', [])"
    by (simp add: prod_eq_iff)
  with k c show ?thesis by blast
qed

text \<open>
  The checks before the key check come first: with no key and the departure date
  \<open>tomorrow\<close>, \<open>execute\<close> returns the date error.
\<close>

lemma execute_checks_dates_before_key:
  "key_missing (SERPAPI_KEY (example_platform\<lparr>SERPAPI_KEY := None\<rparr>)) \<and>
   fst (execute (example_platform\<lparr>SERPAPI_KEY := None\<rparr>) example_service
          (example_args\<lparr>departureDate := ''tomorrow''\<rparr>)) =
     ErrorResult (date_error ''departure'' ''tomorrow'') None (Some date_suggestion) \<and>
   fst (execute (example_platform\<lparr>SERPAPI_KEY := None\<rparr>) example_service
          (example_args\<lparr>departureDate := ''tomorrow''\<rparr>)) \<noteq>
     not_configured (example_args\<lparr>departureDate := ''tomorrow''\<rparr>) ''JFK'' ''NRT''"
  by code_simp

lemma call_tool_without_key:
  "key_missing (SERPAPI_KEY pf) \<Longrightarrow>
     call_tool pf args =
       Inl (Error ''SERPAPI_KEY environment variable is required and must be a valid API key'')"
  by (simp add: call_tool_def service_construction_throws_without_key)

lemma call_tool_returns_only_with_key:
  "call_tool pf args = Inr r \<Longrightarrow>
     \<not> key_missing (SERPAPI_KEY pf) \<and>
     r = execute pf \<lparr>apiKey = the (SERPAPI_KEY pf), baseUrl = ''https://serpapi.com/search.json''\<rparr> args"
  by (auto simp: call_tool_def SerpApiService_new_def split: if_splits)

text \<open>
  C1. In a process whose environment has no API key, a flight search does not return the
  "not configured" result: the module of the service throws when it is loaded, before
  \<open>execute\<close> can run its own check of the key.
\<close>

theorem tool_throws_at_load_without_key:
  "call_tool (example_platform\<lparr>SERPAPI_KEY := None\<rparr>) example_args =
     Inl (Error ''SERPAPI_KEY environment variable is required and must be a valid API key'') \<and>
   call_tool (example_platform\<lparr>SERPAPI_KEY := Some ''your_serpapi_key_here''\<rparr>) example_args =
     Inl (Error ''SERPAPI_KEY environment variable is required and must be a valid API key'')"
  by code_simp

lemma map_of_usp_set: "map_of (usp_set kvs k v) k' = (if k' = k then Some v else map_of kvs k')"
  by (induction kvs) auto

lemma show_nat_1_2: "show_nat 1 = ''1''" "show_nat 2 = ''2''"
  by code_simp+

lemma map_of_set_if:
  "map_of (set_if c k v p) k' = (if c \<and> k' = k then Some v else map_of p k')"
  by (simp add: set_if_def map_of_usp_set)

lemma map_of_skip:
  "k' \<noteq> k \<Longrightarrow> map_of (case x of None \<Rightarrow> p | Some n \<Rightarrow> set_if (c n) k (v n) p) k' = map_of p k'"
  by (cases x) (simp_all add: map_of_set_if)

lemma build_query_type:
  "map_of (build_query svc (build_params args oc dc dep ret)) ''type'' =
     Some (if given ret then ''1'' else ''2'')"
  by (simp add: build_query_def build_params_def Let_def map_of_set_if digits_def)

lemma build_query_outbound_date:
  "map_of (build_query svc (build_params args oc dc dep ret)) ''outbound_date'' = Some dep"
  by (simp add: build_query_def Let_def map_of_skip map_of_usp_set)
     (simp add: build_params_def)

lemma build_query_return_date:
  "map_of (build_query svc (build_params args oc dc dep ret)) ''return_date'' =
     (if given ret then ret else None)"
proof (cases "given ret")
  case True
  then obtain r where "ret = Some r" "r \<noteq> []" by (auto simp: given_def)
  then show ?thesis
    by (simp add: build_query_def Let_def map_of_skip)
       (simp add: build_params_def given_simps map_of_set_if)
next
  case False
  then show ?thesis
    by (simp add: build_query_def Let_def map_of_skip)
       (simp add: build_params_def  map_of_usp_set)
qed

text \<open>
  Every request the tool sends carries the departure date as \<open>outbound_date\<close>; it carries
  \<open>type=1\<close> and the return date when a return date is given (which then has passed
  \<open>validateDate\<close>), and \<open>type=2\<close> and no \<open>return_date\<close> parameter when none is given. When
  all checks pass and the key is configured, exactly one request is sent.
\<close>

lemma request_type_follows_accepted_return_date:
  "(\<forall>req \<in> set (snd (execute pf svc args)).
      map_of (query req) ''outbound_date'' = Some (departureDate args) \<and>
      (given (returnDate args) \<longrightarrow>
         validateDate (now pf) (the (returnDate args)) = returnDate args \<and>
         map_of (query req) ''type'' = Some ''1'' \<and>
         map_of (query req) ''return_date'' = returnDate args) \<and>
      (\<not> given (returnDate args) \<longrightarrow>
         map_of (query req) ''type'' = Some ''2'' \<and>
         map_of (query req) ''return_date'' = None)) \<and>
   (checks_pass (now pf) args \<and> \<not> key_missing (SERPAPI_KEY pf) \<longrightarrow>
      length (snd (execute pf svc args)) = 1)"
proof (cases "checks_pass (now pf) args")
  case False
  then show ?thesis using execute_checks_fail[OF False, of svc] by auto
next
  case True
  show ?thesis
  proof (cases "key_missing (SERPAPI_KEY pf)")
    case k: True
    then show ?thesis using execute_checks_pass[OF True, of svc] by simp
  next
    case k: False
    let ?ret = "if given (returnDate args) then returnDate args else None"
    have e: "snd (execute pf svc args) =
      [\<lparr>url_base = baseUrl svc,
        query = build_query svc (build_params args (the (findAirportCode (origin args)))
                 (the (findAirportCode (destination args))) (departureDate args) ?ret)\<rparr>]"
      using execute_checks_pass[OF True, of svc] k by (simp add: run_search_requests)
    have v: "given (returnDate args) \<longrightarrow> validateDate (now pf) (the (returnDate args)) = returnDate args"
      using True validateDate_Some by (auto simp: checks_pass_def given_def)
    have g: "given ?ret = given (returnDate args)" by (simp add: given_simps)
    show ?thesis
      unfolding e using v
      by (simp add: build_query_type build_query_return_date build_query_outbound_date given_simps)
  qed
qed


lemma request_type_follows_accepted_return_date_example:
  "snd (execute example_platform example_service example_args) =
     [\<lparr>url_base = ''https://serpapi.com/search.json'',
       query = [(''engine'', ''google_flights''), (''api_key'', ''secret-key''),
                (''departure_id'', ''JFK''), (''arrival_id'', ''NRT''),
                (''outbound_date'', ''2025-12-25''), (''type'', ''2'')]\<rparr>] \<and>
   snd (execute example_platform example_service (example_args\<lparr>returnDate := Some ''2025-12-31''\<rparr>)) =
     [\<lparr>url_base = ''https://serpapi.com/search.json'',
       query = [(''engine'', ''google_flights''), (''api_key'', ''secret-key''),
                (''departure_id'', ''JFK''), (''arrival_id'', ''NRT''),
                (''outbound_date'', ''2025-12-25''), (''return_date'', ''2025-12-31''),
                (''type'', ''1'')]\<rparr>] \<and>
   length (snd (execute example_platform example_service example_args)) = 1"
proof -
  have c: "checks_pass (now example_platform) example_args" by code_simp
  have k: "\<not> key_missing (SERPAPI_KEY example_platform)" by code_simp
  from request_type_follows_accepted_return_date[of example_platform example_service example_args] c k
  have 1: "length (snd (execute example_platform example_service example_args)) = 1" by blast
  have 2: "snd (execute example_platform example_service example_args) =
     [\<lparr>url_base = ''https://serpapi.com/search.json'',
       query = [(''engine'', ''google_flights''), (''api_key'', ''secret-key''),
                (''departure_id'', ''JFK''), (''arrival_id'', ''NRT''),
                (''outbound_date'', ''2025-12-25''), (''type'', ''2'')]\<rparr>]"
    by code_simp
  have 3: "snd (execute example_platform example_service (example_args\<lparr>returnDate := Some ''2025-12-31''\<rparr>)) =
     [\<lparr>url_base = ''https://serpapi.com/search.json'',
       query = [(''engine'', ''google_flights''), (''api_key'', ''secret-key''),
                (''departure_id'', ''JFK''), (''arrival_id'', ''NRT''),
                (''outbound_date'', ''2025-12-25''), (''return_date'', ''2025-12-31''),
                (''type'', ''1'')]\<rparr>]"
    by code_simp
  from 1 2 3 show ?thesis by blast
qed

text \<open>
  C7. A round-trip request goes out for a return date that is no date of the calendar:
  \<open>validateDate\<close> accepts the 31st of February 2099, and the request carries it as
  \<open>return_date\<close> with \<open>type=1\<close>.
\<close>

theorem invalid_return_date_goes_out_as_round_trip:
  "\<not> valid_calendar_date ''2099-02-31'' \<and>
   snd (execute example_platform example_service (example_args\<lparr>returnDate := Some ''2099-02-31''\<rparr>)) =
     [\<lparr>url_base = ''https://serpapi.com/search.json'',
       query = [(''engine'', ''google_flights''), (''api_key'', ''secret-key''),
                (''departure_id'', ''JFK''), (''arrival_id'', ''NRT''),
                (''outbound_date'', ''2025-12-25''), (''return_date'', ''2099-02-31''),
                (''type'', ''1'')]\<rparr>]"
  by code_simp

section \<open>Properties of the normalised response\<close>

lemma map_of_keyed_map:
  "map_of (map (\<lambda>(k, s). (k, g k s)) xs) k = map_option (g k) (map_of xs k)"
  by (induction xs) auto

lemma map_of_filter_distinct:
  assumes "distinct (map fst xs)"
  shows "map_of (filter P xs) k =
           (case map_of xs k of None \<Rightarrow> None | Some y \<Rightarrow> if P (k, y) then Some y else None)"
  using assms
proof (induction xs)
  case Nil
  show ?case by simp
next
  case (Cons x xs)
  obtain k' y' where x: "x = (k', y')" by (cases x)
  show ?case
  proof (cases "k' = k")
    case False
    with Cons x show ?thesis by simp
  next
    case True
    with Cons.prems x have "k \<notin> fst ` set xs" by simp
    then have "k \<notin> fst ` set (filter P xs)" by auto
    then have "map_of (filter P xs) k = None" by (simp add: map_of_eq_None_iff)
    with True x show ?thesis by simp
  qed
qed

lemma map_of_excluded:
  "k \<in> S \<Longrightarrow> map_of (filter (\<lambda>(k', y). k' \<notin> S) kvs) k = None"
  by (auto simp: map_of_eq_None_iff)

lemma zparse_object_field:
  assumes p: "zparse (ZObject shape pt) v = Some out"
    and d: "distinct (map fst shape)"
    and m: "(k, s) \<in> set shape"
  shows "zparse s (get_prop v k) = Some (get_prop out k)"
proof -
  from p obtain kvs where v: "v = JObj kvs" by (cases v) simp_all
  define F where "F = map (\<lambda>(k, s). (k, zparse s (get_prop v k))) shape"
  define G where "G = map (\<lambda>(k, y). (k, the y)) F"
  define P where "P = (\<lambda>(k, y). y \<noteq> JUndefined \<or> k \<in> fst ` set kvs)"
  define E where "E = (if pt then filter (\<lambda>(k, y). k \<notin> fst ` set shape) kvs else [])"
  from p have ok: "list_all (\<lambda>(k, y). y \<noteq> None) F" and out: "out = JObj (filter P G @ E)"
    unfolding v F_def G_def P_def E_def by (simp_all add: Let_def split: if_splits)
  have "(k, zparse s (get_prop v k)) \<in> set F" using m unfolding F_def by force
  with ok obtain y where y: "zparse s (get_prop v k) = Some y"
    by (auto simp: list_all_iff)
  have ms: "map_of shape k = Some s" using d m by simp
  have Geq: "G = map (\<lambda>(k, s). (k, the (zparse s (get_prop v k)))) shape"
    unfolding G_def F_def by (simp add: case_prod_beta)
  have mG: "map_of G k = Some y"
    unfolding Geq using ms y by (simp add: map_of_keyed_map)
  have dG: "distinct (map fst G)"
    unfolding Geq using d by (simp add: case_prod_beta comp_def)
  have mE: "map_of E k = None"
  proof (cases pt)
    case True
    have "k \<in> fst ` set shape" using m by force
    then show ?thesis unfolding E_def using True by (simp add: map_of_excluded)
  next
    case False
    then show ?thesis by (simp add: E_def)
  qed
  have mF: "map_of (filter P G) k = (if P (k, y) then Some y else None)"
    using map_of_filter_distinct[OF dG, of P k] mG by simp
  have "get_prop out k = y"
  proof (cases "P (k, y)")
    case True
    then show ?thesis unfolding out using mF by (simp add: map_add_def)
  next
    case False
    then have "y = JUndefined" by (simp add: P_def)
    with False show ?thesis unfolding out using mF mE by (simp add: map_add_def)
  qed
  with y show ?thesis by simp
qed

lemma zparse_optional_array:
  "zparse (ZOptional (ZArray s)) x = Some y \<Longrightarrow> y = JUndefined \<or> isArray y"
  by (cases x) (auto simp: Let_def split: if_splits)

lemma validated_lists:
  assumes "zparse FlightSearchResultSchema rawData = Some validatedData"
    and "k \<in> {''best_flights'', ''other_flights''}"
  shows "get_prop validatedData k = JUndefined \<or> isArray (get_prop validatedData k)"
proof -
  have "zparse (ZOptional (ZArray FlightSchema)) (get_prop rawData k) = Some (get_prop validatedData k)"
    using assms(2)
  by (intro zparse_object_field[OF assms(1)[unfolded FlightSearchResultSchema_def]]) auto
  then show ?thesis by (rule zparse_optional_array)
qed

lemma prune_key_lists:
  assumes "prune_key k d = Inr d'" and "list_or_absent (get_prop d k')"
  shows "list_or_absent (get_prop d' k')"
proof (cases "k' = k")
  case False
  then show ?thesis using prune_key_result[OF assms(1), of k'] assms(2) by simp
next
  case True
  from prune_key_cases[OF assms(1)] show ?thesis
  proof (elim disjE exE conjE)
    assume "d' = d"
    then show ?thesis using assms(2) by simp
  next
    fix kvs xs
    assume "d' = JObj (obj_set kvs k (JArr (filter keep_flight xs)))"
    then have "get_prop d' k = JArr (filter keep_flight xs)"
      by (simp only: get_prop_obj_set refl if_True)
    then show ?thesis using True by (simp add: list_or_absent_def)
  qed
qed

lemma prune_total:
  assumes "list_or_absent (get_prop d ''best_flights'')"
    and "list_or_absent (get_prop d ''other_flights'')"
  shows "\<exists>d'. prune d = Inr d'"
proof -
  have 1: "\<exists>d1. prune_key ''best_flights'' d = Inr d1"
    using assms(1) by (auto simp: prune_key_def Let_def list_or_absent_def)
  then obtain d1 where d1: "prune_key ''best_flights'' d = Inr d1" by blast
  have "list_or_absent (get_prop d1 ''other_flights'')"
    using prune_key_lists[OF d1 assms(2)] .
  then have "\<exists>d'. prune_key ''other_flights'' d1 = Inr d'"
    by (auto simp: prune_key_def Let_def list_or_absent_def)
  with d1 show ?thesis by (auto simp: prune_def)
qed



lemma normalize_response_strict:
  assumes "zparse FlightSearchResultSchema rawData = Some validatedData"
    and "\<not> nullish rawData"
  shows "\<exists>d. prune validatedData = Inr d \<and> normalize_response pf rawData = Inr d"
proof -
  have "list_or_absent (get_prop validatedData ''best_flights'')"
       "list_or_absent (get_prop validatedData ''other_flights'')"
    using validated_lists[OF assms(1)] by (simp_all add: list_or_absent_def)
  then obtain d where "prune validatedData = Inr d" using prune_total by blast
  then show ?thesis using assms by (simp add: normalize_response_def)
qed
















section \<open>Properties of date validation\<close>

lemma start_of_day_le:
  "start_of_day t \<le> d * msPerDay + 12 * msPerHour \<longleftrightarrow> t div msPerDay \<le> d"
proof -
  have "start_of_day t = (t div msPerDay) * msPerDay"
    unfolding start_of_day_def by (simp add: minus_mod_eq_div_mult)
  moreover have "q * 86400000 \<le> d * 86400000 + 43200000 \<longleftrightarrow> q \<le> d" for q :: int
    by arith
  ultimately show ?thesis by (simp add: msPerDay_def msPerHour_def)
qed

lemma validateDate_iff:
  "validateDate t s = Some s \<longleftrightarrow>
     matches_date_pattern s \<and> date_fields_ok s \<and> t div msPerDay \<le> day_number s"
  using start_of_day_le[of t "day_number s"]
  by (auto simp: validateDate_def Date_local_noon_def day_number_def split: option.splits)

lemma validateDate_None_or_input: "validateDate t s = None \<or> validateDate t s = Some s"
  by (auto simp: validateDate_def split: option.splits)

lemma validateDate_calendar:
  assumes "valid_calendar_date s"
  shows "validateDate t s = Some s \<longleftrightarrow> t div msPerDay \<le> day_number s"
  using assms fields_ok_calendar[OF assms] by (simp add: validateDate_iff valid_calendar_date_def)

lemma validateDate_rejects_other_shapes: "\<not> matches_date_pattern s \<Longrightarrow> validateDate t s = None"
  by (simp add: validateDate_def)

text \<open>
  C5. The validation accepts a string that matches the pattern and names a day of the
  calendar exactly when that day is not before the current day (\<open>validateDate_calendar\<close>),
  it rejects every string that does not match the pattern, and it returns an accepted
  string unchanged. But it also accepts strings that match the pattern and name no day of
  the calendar: the 30th of February 2099 passes, because the runtime reads it as the 2nd
  of March.
\<close>

theorem february_30_passes_validation:
  "matches_date_pattern ''2099-02-30'' \<and> \<not> valid_calendar_date ''2099-02-30'' \<and>
   validateDate example_now ''2099-02-30'' = Some ''2099-02-30''"
  by code_simp

section \<open>Properties of the fallback\<close>

lemma map_of_foldl_obj_set:
  "map_of (foldl (\<lambda>acc (k, x). obj_set acc k x) obj kvs) k =
     (case map_of (rev kvs) k of Some x \<Rightarrow> Some x | None \<Rightarrow> map_of obj k)"
proof (induction kvs arbitrary: obj)
  case Nil
  show ?case by simp
next
  case (Cons kv kvs)
  obtain k' x' where kv: "kv = (k', x')" by (cases kv)
  show ?case
    unfolding kv using Cons[of "obj_set obj k' x'"]
    by (auto simp: map_of_obj_set map_add_def split: option.splits)
qed

lemma map_of_rev_distinct: "distinct (map fst kvs) \<Longrightarrow> map_of (rev kvs) = map_of kvs"
  by (rule map_of_inject_set[THEN iffD2]) (simp_all add: distinct_rev rev_map[symmetric])

lemma get_prop_spread:
  assumes "distinct (map fst (own_props v))"
  shows "get_prop (JObj (spread obj v)) k =
           (if k \<in> fst ` set (own_props v) then get_prop (JObj (own_props v)) k
            else get_prop (JObj obj) k)"
proof (cases "map_of (own_props v) k")
  case None
  then have "k \<notin> fst ` set (own_props v)" by (simp add: map_of_eq_None_iff)
  with None show ?thesis
    by (simp add: spread_def map_of_foldl_obj_set map_of_rev_distinct[OF assms])
next
  case (Some x)
  then have "k \<in> fst ` set (own_props v)" by (metis map_of_eq_None_iff option.distinct(1))
  with Some show ?thesis
    by (simp add: spread_def map_of_foldl_obj_set map_of_rev_distinct[OF assms])
qed

lemma clean_flight_keeps_raw_fields:
  assumes c: "clean_flight (JObj kvs) = Inr cleaned"
    and d: "distinct (map fst kvs)"
    and k: "k \<in> fst ` set kvs" "k \<noteq> ''flights''"
  shows "get_prop cleaned k = get_prop (JObj kvs) k"
proof -
  from c obtain base where
    cl: "cleaned = JObj (obj_set (spread base (JObj kvs)) ''flights''
                     (js_or (get_prop (JObj kvs) ''flights'') JUndefined))"
    by (auto simp: clean_flight_def Let_def split: if_splits)
  have "get_prop cleaned k = get_prop (JObj (spread base (JObj kvs))) k"
    unfolding cl using k(2) by (simp only: get_prop_obj_set) simp
  also have "\<dots> = get_prop (JObj kvs) k"
    using get_prop_spread[of "JObj kvs" base k] d k(1) by simp
  finally show ?thesis .
qed

lemma cleanFlights_at_most_5:
  assumes "cleanFlights flights = Inr cleaned"
  shows "length cleaned \<le> 5"
proof -
  have len: "map_throwing f xs = Inr ys \<Longrightarrow> length ys = length xs" for f :: "jsval \<Rightarrow> js_error + jsval" and xs ys
    by (induction xs arbitrary: ys) (auto split: sum.splits)
  show ?thesis
  proof (cases "isArray flights")
    case False
    with assms show ?thesis by (simp add: cleanFlights_def)
  next
    case True
    with assms have "length cleaned =
        length (take 5 (filter (\<lambda>flight. truthy flight \<and> is_object_type flight) (elements flights)))"
      by (intro len[of clean_flight]) (simp add: cleanFlights_def)
    then show ?thesis by simp
  qed
qed

text \<open>
  C3. The fallback keeps at most five options per list (\<open>cleanFlights_at_most_5\<close>) and
  copies every raw field of an option but \<open>flights\<close> as it is
  (\<open>clean_flight_keeps_raw_fields\<close>). But the raw option is spread over the reconstructed
  fields after they are computed, so a flat field that is present always wins: in the
  example the option keeps the flat airline \<open>United\<close> although its first segment names
  \<open>Delta\<close>, and keeps the flat flight number \<open>null\<close> although its first segment has
  \<open>DL 1\<close>.
\<close>

theorem fallback_lets_flat_fields_override:
  "zparse FlightSearchResultSchema example_degraded = None \<and>
   (\<exists>d option. fallback example_degraded = Inr d \<and>
      elements (get_prop d ''best_flights'') = [option] \<and>
      get_prop option ''airline'' = JStr ''United'' \<and>
      get_prop option ''flight_number'' = JNull \<and>
      first_segment option = Some (JObj [(''airline'', JStr ''Delta''), (''flight_number'', JStr ''DL 1'')]))"
proof -
  have z: "zparse FlightSearchResultSchema example_degraded = None" by code_simp
  have f: "fallback example_degraded = Inr (JObj
       [(''best_flights'',
         JArr
          [JObj
            [(''departure_airport'', default_airport),
             (''arrival_airport'', default_airport),
             (''duration'', JNum 0), (''airline'', JStr ''United''),
             (''flight_number'', JNull),
             (''travel_class'', JStr ''economy''), (''price'', JUndefined),
             (''flights'', JArr [JObj [(''airline'', JStr ''Delta''), (''flight_number'', JStr ''DL 1'')]])]]),
        (''other_flights'', JArr []), (''price_insights'', JUndefined),
        (''search_metadata'',
         JObj [(''google_flights_url'', JStr ''https://www.google.com/travel/flights'')]),
        (''search_parameters'', JObj [])])"
    by code_simp
  show ?thesis unfolding f using z by (simp add: first_segment_def)
qed

end
